theory Spec2Isabelle
  imports Main "HOL-Library.Word"
begin

unbundle bit_operations_syntax

section \<open>Data model of the fsck builtin\<close>

text \<open>
  The embedded program is the \<^verbatim>\<open>fsck\<close> builtin of ostree: the three C functions
  \<^verbatim>\<open>fsck_pack_files\<close>, \<^verbatim>\<open>fsck_reachable_objects_from_commits\<close> and
  \<^verbatim>\<open>ostree_builtin_fsck\<close>, with the option table and the two global flags they share.
  Everything these functions call lives in libostree, GLib or GIO; each callee is a field
  of the record \<open>OstreeRepo\<close> below, so that every theorem holds for whatever those
  callees return.
\<close>

type_synonym checksum = string
type_synonym path = string
type_synonym bytes = "8 word list"

text \<open>A \<^verbatim>\<open>GVariant\<close> holding a metadata object is its serialized data; an input stream is
  the bytes it yields.\<close>

type_synonym GVariant = bytes
type_synonym GInputStream = bytes

datatype OstreeObjectType =
    OSTREE_OBJECT_TYPE_RAW_FILE
  | OSTREE_OBJECT_TYPE_ARCHIVED_FILE_CONTENT
  | OSTREE_OBJECT_TYPE_ARCHIVED_FILE_META
  | OSTREE_OBJECT_TYPE_DIR_TREE
  | OSTREE_OBJECT_TYPE_DIR_META
  | OSTREE_OBJECT_TYPE_COMMIT

text \<open>A serialized object name is the pair that \<^verbatim>\<open>ostree_object_name_deserialize\<close>
  reads back from it.\<close>

type_synonym ObjectName = "checksum \<times> OstreeObjectType"

definition ostree_object_name_deserialize :: "ObjectName \<Rightarrow> checksum \<times> OstreeObjectType" where
  "ostree_object_name_deserialize serialized_key = serialized_key"

text \<open>A \<^verbatim>\<open>GHashTable\<close> keyed by object names (every table of this file maps a key to
  itself): its keys, without duplicates, in the order an iterator yields them.
  \<^verbatim>\<open>g_hash_table_insert\<close> of a key already present leaves the set of keys as it is. Where
  a new key lands in the iteration order is up to GLib; the model puts it last, and no
  property below depends on that: the tables whose order matters are the ones the callees
  return, and they are arbitrary lists.\<close>

type_synonym GHashTable = "ObjectName list"

definition g_hash_table_insert :: "GHashTable \<Rightarrow> ObjectName \<Rightarrow> GHashTable" where
  "g_hash_table_insert table k = (if k \<in> set table then table else table @ [k])"

definition g_hash_table_size :: "GHashTable \<Rightarrow> nat" where
  "g_hash_table_size table = length table"

text \<open>The two attributes read from a \<^verbatim>\<open>GFileInfo\<close>.\<close>

record GFileInfo =
  standard_size :: "64 word"
  unix_mode :: "32 word"

text \<open>A pack index, of variant format \<^verbatim>\<open>(sa{sv}a(uayt))\<close>: child 0 is the header,
  child 1 the metadata, child 2 the entries \<^verbatim>\<open>(objtype, checksum bytes, offset)\<close>. The
  offset is the \<^verbatim>\<open>guint64\<close> as \<^verbatim>\<open>g_variant_iter_loop\<close> hands it out, before any byte
  swap.\<close>

record pack_index =
  index_header :: string
  index_metadata :: "(string \<times> bytes) list"
  index_content :: "(32 word \<times> bytes \<times> 64 word) list"

text \<open>Errors. The last three are the ones this file sets itself with
  \<^verbatim>\<open>g_set_error (error, G_IO_ERROR, G_IO_ERROR_FAILED, ...)\<close>:
  \<^item> \<^verbatim>\<open>"corrupted pack '%s', expected checksum %s"\<close> (pack checksum, content checksum);
  \<^item> \<^verbatim>\<open>"corrupted pack '%s', offset %lu larger than file size %lu"\<close>
    (pack checksum, offset, pack size);
  \<^item> \<^verbatim>\<open>"corrupted object %s.%s; actual checksum: %s"\<close>
    (checksum, object type, computed checksum).
  \<open>Callee_error\<close> is an error set by a function this file calls.\<close>

datatype GError =
    Callee_error string
  | Corrupted_pack_checksum checksum checksum
  | Corrupted_pack_offset checksum "64 word" "64 word"
  | Corrupted_object checksum OstreeObjectType checksum

text \<open>What a \<^verbatim>\<open>gboolean\<close> function with a \<^verbatim>\<open>GError **\<close> argument does: return TRUE,
  return FALSE with the error set, never return because a \<^verbatim>\<open>g_assert\<close> aborted the
  process, or run into an operation for which C defines no behaviour (here: freeing a
  \<^verbatim>\<open>GChecksum\<close> a second time), after which nothing can be said of the run.\<close>

datatype outcome = Ret_TRUE | Ret_FALSE GError | Aborted string | Undefined_behaviour string

text \<open>The local \<^verbatim>\<open>GChecksum *pack_content_checksum\<close> of \<^verbatim>\<open>fsck_pack_files\<close>: NULL, pointing
  to a live checksum with the given digest, or still pointing to a checksum that
  \<^verbatim>\<open>g_checksum_free\<close> has released.\<close>

datatype GChecksum_ptr = Ptr_NULL | Ptr_live checksum | Ptr_freed

text \<open>The repository handle, with the behaviour of every function the builtin calls on
  it, on its files and on the objects loaded from it. Each field is named after the C
  function it stands for.\<close>

record OstreeRepo =
  ostree_repo_check :: "GError + unit"
  ostree_repo_list_objects :: "GError + ObjectName list"
  ostree_traverse_commit :: "checksum \<Rightarrow> int \<Rightarrow> GHashTable \<Rightarrow> GError + GHashTable"
  ostree_repo_load_variant :: "OstreeObjectType \<Rightarrow> checksum \<Rightarrow> GError + GVariant"
  ostree_repo_load_file :: "checksum \<Rightarrow> GError + (GInputStream \<times> GFileInfo \<times> GVariant)"
  ostree_validate_structureof_commit :: "GVariant \<Rightarrow> GError + unit"
  ostree_validate_structureof_dirtree :: "GVariant \<Rightarrow> GError + unit"
  ostree_validate_structureof_dirmeta :: "GVariant \<Rightarrow> GError + unit"
  ostree_validate_structureof_file_mode :: "32 word \<Rightarrow> GError + unit"
  ostree_wrap_metadata_variant :: "OstreeObjectType \<Rightarrow> GVariant \<Rightarrow> GVariant"
  ostree_checksum_file_from_input ::
    "GFileInfo option \<Rightarrow> GVariant option \<Rightarrow> GInputStream \<Rightarrow> OstreeObjectType \<Rightarrow> GError + checksum"
  ostree_repo_list_pack_indexes :: "GError + checksum list"
  ostree_repo_get_pack_index_path :: "checksum \<Rightarrow> path"
  ostree_repo_get_pack_data_path :: "checksum \<Rightarrow> path"
  ot_util_variant_map :: "path \<Rightarrow> GError + pack_index"
  ostree_validate_structureof_pack_index :: "pack_index \<Rightarrow> GError + unit"
  g_file_read :: "path \<Rightarrow> GError + GInputStream"
  g_file_input_stream_query_info :: "GInputStream \<Rightarrow> GError + GFileInfo"
  ot_gio_checksum_stream :: "GInputStream \<Rightarrow> GError + checksum"

record OtFsckData =
  repo :: OstreeRepo
  n_pack_files :: "32 word"

section \<open>Pack files: \<^verbatim>\<open>fsck_pack_files\<close>\<close>

text \<open>\<^verbatim>\<open>GUINT64_FROM_BE\<close> on a little-endian host is GLib's
  \<^verbatim>\<open>GUINT64_SWAP_LE_BE\<close>: the eight bytes of the value in reverse order.\<close>

definition GUINT64_FROM_BE :: "64 word \<Rightarrow> 64 word" where
  "GUINT64_FROM_BE val =
     (push_bit 56 (val AND 0x00000000000000ff) OR
      push_bit 40 (val AND 0x000000000000ff00) OR
      push_bit 24 (val AND 0x0000000000ff0000) OR
      push_bit 8  (val AND 0x00000000ff000000) OR
      drop_bit 8  (val AND 0x000000ff00000000) OR
      drop_bit 24 (val AND 0x0000ff0000000000) OR
      drop_bit 40 (val AND 0x00ff000000000000) OR
      drop_bit 56 (val AND 0xff00000000000000))"

text \<open>The inner \<^verbatim>\<open>while (g_variant_iter_loop (...))\<close> over the entries of the index.\<close>

fun check_offsets ::
  "checksum \<Rightarrow> 64 word \<Rightarrow> (32 word \<times> bytes \<times> 64 word) list \<Rightarrow> GError + unit" where
  "check_offsets checksum pack_size [] = Inr ()"
| "check_offsets checksum pack_size ((objtype, csum, offset) # rest) =
     (let offset = GUINT64_FROM_BE offset in
      if offset > pack_size
      then Inl (Corrupted_pack_offset checksum offset pack_size)
      else check_offsets checksum pack_size rest)"

text \<open>One iteration of the \<^verbatim>\<open>for\<close> loop, for the pack named \<open>checksum\<close>, up to the
  increment of the counter. At the top of an iteration \<^verbatim>\<open>pack_content_checksum\<close> is NULL
  (before the first pack) or the live checksum of the pack before (\<open>Some\<close> of its digest).
  Lines 98 and 99 free a checksum that is there and leave the pointer as it is;
  \<^verbatim>\<open>ot_gio_checksum_stream\<close> stores a new checksum through its out-parameter when it succeeds
  and, as GLib functions do, leaves the out-parameter alone when it fails. The result is
  the digest of the new live checksum when the iteration completes, and otherwise the error
  set together with the state in which the pointer reaches the label \<^verbatim>\<open>out\<close>.\<close>

definition fsck_pack_iteration ::
  "OstreeRepo \<Rightarrow> checksum \<Rightarrow> checksum option \<Rightarrow> (GError \<times> GChecksum_ptr) + checksum" where
  "fsck_pack_iteration r checksum pack_content_checksum =
     (let unchanged = (case pack_content_checksum of None \<Rightarrow> Ptr_NULL | Some d \<Rightarrow> Ptr_live d);
          pack_index_path = ostree_repo_get_pack_index_path r checksum in
      case ot_util_variant_map r pack_index_path of
        Inl e \<Rightarrow> Inl (e, unchanged)
      | Inr index_variant \<Rightarrow>
     (case ostree_validate_structureof_pack_index r index_variant of
        Inl e \<Rightarrow> Inl (e, unchanged)
      | Inr _ \<Rightarrow>
     (let pack_data_path = ostree_repo_get_pack_data_path r checksum in
      case g_file_read r pack_data_path of
        Inl e \<Rightarrow> Inl (e, unchanged)
      | Inr input \<Rightarrow>
     (case g_file_input_stream_query_info r input of
        Inl e \<Rightarrow> Inl (e, unchanged)
      | Inr pack_info \<Rightarrow>
     (let pack_size = standard_size pack_info;
          freed = (case pack_content_checksum of None \<Rightarrow> Ptr_NULL | Some d \<Rightarrow> Ptr_freed) in
      case ot_gio_checksum_stream r input of
        Inl e \<Rightarrow> Inl (e, freed)
      | Inr digest \<Rightarrow>
          if digest \<noteq> checksum
          then Inl (Corrupted_pack_checksum checksum digest, Ptr_live digest)
          else (case check_offsets checksum pack_size (index_content index_variant) of
                  Inl e \<Rightarrow> Inl (e, Ptr_live digest)
                | Inr _ \<Rightarrow> Inr digest))))))"

text \<open>What an iteration decides about the pack: the error it sets, or none. The pointer
  has no part in that.\<close>

definition fsck_pack_file :: "OstreeRepo \<Rightarrow> checksum \<Rightarrow> GError + unit" where
  "fsck_pack_file r checksum =
     (case fsck_pack_iteration r checksum None of
        Inl (e, pack_content_checksum) \<Rightarrow> Inl e
      | Inr digest \<Rightarrow> Inr ())"

text \<open>The \<^verbatim>\<open>for\<close> loop over \<^verbatim>\<open>pack_indexes\<close>: the data with its counter, the pointer
  and the value of \<^verbatim>\<open>ret\<close> (with the error, when it is FALSE) on arrival at \<^verbatim>\<open>out\<close>.\<close>

fun fsck_pack_loop ::
  "OtFsckData \<Rightarrow> checksum option \<Rightarrow> checksum list \<Rightarrow> OtFsckData \<times> GChecksum_ptr \<times> (GError + unit)" where
  "fsck_pack_loop data pack_content_checksum [] =
     (data, (case pack_content_checksum of None \<Rightarrow> Ptr_NULL | Some d \<Rightarrow> Ptr_live d), Inr ())"
| "fsck_pack_loop data pack_content_checksum (checksum # rest) =
     (case fsck_pack_iteration (repo data) checksum pack_content_checksum of
        Inl (e, pack_content_checksum') \<Rightarrow> (data, pack_content_checksum', Inl e)
      | Inr digest \<Rightarrow>
          fsck_pack_loop (data\<lparr>n_pack_files := n_pack_files data + 1\<rparr>) (Some digest) rest)"

text \<open>The label \<^verbatim>\<open>out\<close>, lines 134 and 135: a pointer that is not NULL is freed. Freeing
  what lines 98 and 99 have freed already has no defined behaviour; otherwise the function
  returns \<^verbatim>\<open>ret\<close>.\<close>

definition fsck_pack_files_out :: "GChecksum_ptr \<Rightarrow> GError + unit \<Rightarrow> outcome" where
  "fsck_pack_files_out pack_content_checksum ret =
     (case pack_content_checksum of
        Ptr_freed \<Rightarrow> Undefined_behaviour ''g_checksum_free (pack_content_checksum): freed twice''
      | Ptr_NULL \<Rightarrow> (case ret of Inl e \<Rightarrow> Ret_FALSE e | Inr _ \<Rightarrow> Ret_TRUE)
      | Ptr_live d \<Rightarrow> (case ret of Inl e \<Rightarrow> Ret_FALSE e | Inr _ \<Rightarrow> Ret_TRUE))"

definition fsck_pack_files :: "OtFsckData \<Rightarrow> OtFsckData \<times> outcome" where
  "fsck_pack_files data =
     (case ostree_repo_list_pack_indexes (repo data) of
        Inl e \<Rightarrow> (data, fsck_pack_files_out Ptr_NULL (Inl e))
      | Inr pack_indexes \<Rightarrow>
          (case fsck_pack_loop data None pack_indexes of
             (data', pack_content_checksum, ret) \<Rightarrow>
               (data', fsck_pack_files_out pack_content_checksum ret)))"

section \<open>Reachable objects: \<^verbatim>\<open>fsck_reachable_objects_from_commits\<close>\<close>

definition ostree_traverse_new_reachable :: GHashTable where
  "ostree_traverse_new_reachable = []"

text \<open>The first \<^verbatim>\<open>while\<close> loop: every key of \<^verbatim>\<open>commits\<close> is asserted to be a commit and
  traversed into the one table \<^verbatim>\<open>reachable_objects\<close>.\<close>

fun traverse_commits :: "OstreeRepo \<Rightarrow> ObjectName list \<Rightarrow> GHashTable \<Rightarrow> GHashTable \<times> outcome" where
  "traverse_commits r [] reachable_objects = (reachable_objects, Ret_TRUE)"
| "traverse_commits r (serialized_key # rest) reachable_objects =
     (case ostree_object_name_deserialize serialized_key of (checksum, objtype) \<Rightarrow>
        if objtype \<noteq> OSTREE_OBJECT_TYPE_COMMIT
        then (reachable_objects, Aborted ''objtype == OSTREE_OBJECT_TYPE_COMMIT'')
        else (case ostree_traverse_commit r checksum 0 reachable_objects of
                Inl e \<Rightarrow> (reachable_objects, Ret_FALSE e)
              | Inr reachable_objects' \<Rightarrow> traverse_commits r rest reachable_objects'))"

text \<open>Lines 252 to 265, shared by the metadata and the file branch: recompute the checksum
  and compare it with the one in the object's name.\<close>

definition compare_checksum ::
  "OstreeRepo \<Rightarrow> checksum \<Rightarrow> OstreeObjectType \<Rightarrow> GFileInfo option \<Rightarrow> GVariant option \<Rightarrow>
   GInputStream \<Rightarrow> OstreeObjectType \<Rightarrow> outcome" where
  "compare_checksum r checksum objtype file_info xattrs input checksum_objtype =
     (case ostree_checksum_file_from_input r file_info xattrs input checksum_objtype of
        Inl e \<Rightarrow> Ret_FALSE e
      | Inr computed_checksum \<Rightarrow>
          if checksum \<noteq> computed_checksum
          then Ret_FALSE (Corrupted_object checksum objtype computed_checksum)
          else Ret_TRUE)"

text \<open>The body of the second \<^verbatim>\<open>while\<close> loop for one key of \<^verbatim>\<open>reachable_objects\<close>.
  \<^verbatim>\<open>input\<close>, \<^verbatim>\<open>file_info\<close> and \<^verbatim>\<open>xattrs\<close> are cleared at the top of every iteration, so
  the metadata branch hands NULL for the last two to the checksum function. \<open>Ret_TRUE\<close>
  stands for reaching the end of the body, or \<^verbatim>\<open>continue\<close>.\<close>

definition verify_object :: "OstreeRepo \<Rightarrow> ObjectName \<Rightarrow> outcome" where
  "verify_object r serialized_key =
     (case ostree_object_name_deserialize serialized_key of (checksum, objtype) \<Rightarrow>
      let checksum_objtype = objtype in
      if objtype = OSTREE_OBJECT_TYPE_COMMIT
         \<or> objtype = OSTREE_OBJECT_TYPE_DIR_TREE
         \<or> objtype = OSTREE_OBJECT_TYPE_DIR_META
      then
        (case ostree_repo_load_variant r objtype checksum of
           Inl e \<Rightarrow> Ret_FALSE e
         | Inr metadata \<Rightarrow>
             (case (if objtype = OSTREE_OBJECT_TYPE_COMMIT
                    then Inr (ostree_validate_structureof_commit r metadata)
                    else if objtype = OSTREE_OBJECT_TYPE_DIR_TREE
                    then Inr (ostree_validate_structureof_dirtree r metadata)
                    else if objtype = OSTREE_OBJECT_TYPE_DIR_META
                    then Inr (ostree_validate_structureof_dirmeta r metadata)
                    else Inl ''g_assert_not_reached'') of
                Inl a \<Rightarrow> Aborted a
              | Inr (Inl e) \<Rightarrow> Ret_FALSE e
              | Inr (Inr _) \<Rightarrow>
                  (let metadata_wrapped = ostree_wrap_metadata_variant r objtype metadata;
                       input = metadata_wrapped
                   in compare_checksum r checksum objtype None None input checksum_objtype)))
      else if objtype = OSTREE_OBJECT_TYPE_ARCHIVED_FILE_CONTENT
      then Ret_TRUE
      else if objtype = OSTREE_OBJECT_TYPE_RAW_FILE
              \<or> objtype = OSTREE_OBJECT_TYPE_ARCHIVED_FILE_META
      then
        (case ostree_repo_load_file r checksum of
           Inl e \<Rightarrow> Ret_FALSE e
         | Inr (input, file_info, xattrs) \<Rightarrow>
             (let checksum_objtype = OSTREE_OBJECT_TYPE_RAW_FILE;
                  mode = unix_mode file_info
              in case ostree_validate_structureof_file_mode r mode of
                   Inl e \<Rightarrow> Ret_FALSE e
                 | Inr _ \<Rightarrow>
                     compare_checksum r checksum objtype (Some file_info) (Some xattrs) input
                       checksum_objtype))
      else Aborted ''g_assert_not_reached'')"

text \<open>The second \<^verbatim>\<open>while\<close> loop, over the keys of \<^verbatim>\<open>reachable_objects\<close>.\<close>

fun verify_objects :: "OstreeRepo \<Rightarrow> ObjectName list \<Rightarrow> outcome" where
  "verify_objects r [] = Ret_TRUE"
| "verify_objects r (serialized_key # rest) =
     (case verify_object r serialized_key of
        Ret_TRUE \<Rightarrow> verify_objects r rest
      | Ret_FALSE e \<Rightarrow> Ret_FALSE e
      | Aborted a \<Rightarrow> Aborted a
      | Undefined_behaviour u \<Rightarrow> Undefined_behaviour u)"

definition fsck_reachable_objects_from_commits :: "OtFsckData \<Rightarrow> GHashTable \<Rightarrow> outcome" where
  "fsck_reachable_objects_from_commits data commits =
     (let reachable_objects = ostree_traverse_new_reachable in
      case traverse_commits (repo data) commits reachable_objects of
        (reachable_objects, Ret_TRUE) \<Rightarrow> verify_objects (repo data) reachable_objects
      | (reachable_objects, Ret_FALSE e) \<Rightarrow> Ret_FALSE e
      | (reachable_objects, Aborted a) \<Rightarrow> Aborted a
      | (reachable_objects, Undefined_behaviour u) \<Rightarrow> Undefined_behaviour u)"

section \<open>The builtin: options and \<^verbatim>\<open>ostree_builtin_fsck\<close>\<close>

text \<open>The state of the process: the two static flags (zero until the option parser
  writes them), what has been printed, one string for each \<^verbatim>\<open>g_print\<close>, and the repository
  found at \<^verbatim>\<open>repo_path\<close>, which is what \<^verbatim>\<open>ostree_repo_new\<close> opens. No function called in
  this file writes to the repository, so no equation below changes \<open>store\<close>.\<close>

record process =
  quiet :: bool
  delete :: bool
  stdout :: "string list"
  store :: OstreeRepo

datatype arg_data = Addr_quiet | Addr_delete

record GOptionEntry =
  long_name :: string
  short_name :: "char option"
  arg_data :: arg_data
  description :: string

definition options :: "GOptionEntry list" where
  "options =
     [\<lparr>long_name = ''quiet'', short_name = Some CHR ''q'', arg_data = Addr_quiet,
        description = ''Don'' @ [CHR 0x27] @ ''t display informational messages''\<rparr>,
      \<lparr>long_name = ''delete'', short_name = None, arg_data = Addr_delete,
        description = ''Remove corrupted objects''\<rparr>]"

text \<open>\<^verbatim>\<open>g_option_context_parse\<close> for a table of \<^verbatim>\<open>G_OPTION_ARG_NONE\<close> entries: a flag is
  given as \<^verbatim>\<open>--long\<close> or in a group of short names \<^verbatim>\<open>-ab\<close>; \<^verbatim>\<open>--\<close> ends the options; an
  unknown option is an error, and GLib then leaves the flags as they were. (GLib's own
  help options, which print the usage and exit, are not part of this model.)\<close>

definition set_flag :: "arg_data \<Rightarrow> process \<Rightarrow> process" where
  "set_flag a p = (case a of Addr_quiet \<Rightarrow> p\<lparr>quiet := True\<rparr> | Addr_delete \<Rightarrow> p\<lparr>delete := True\<rparr>)"

fun parse_short :: "GOptionEntry list \<Rightarrow> string \<Rightarrow> process \<Rightarrow> GError + process" where
  "parse_short entries [] p = Inr p"
| "parse_short entries (c # cs) p =
     (case find (\<lambda>e. short_name e = Some c) entries of
        None \<Rightarrow> Inl (Callee_error (''Unknown option -'' @ [c]))
      | Some e \<Rightarrow> parse_short entries cs (set_flag (arg_data e) p))"

fun parse_args :: "GOptionEntry list \<Rightarrow> string list \<Rightarrow> process \<Rightarrow> GError + process" where
  "parse_args entries [] p = Inr p"
| "parse_args entries (arg # rest) p =
     (if arg = ''--'' then Inr p
      else if take 2 arg = ''--'' then
        (case find (\<lambda>e. long_name e = drop 2 arg) entries of
           None \<Rightarrow> Inl (Callee_error (''Unknown option '' @ arg))
         | Some e \<Rightarrow> parse_args entries rest (set_flag (arg_data e) p))
      else if take 1 arg = ''-'' \<and> 1 < length arg then
        (case parse_short entries (drop 1 arg) p of
           Inl e \<Rightarrow> Inl e
         | Inr p' \<Rightarrow> parse_args entries rest p')
      else parse_args entries rest p)"

definition g_option_context_parse :: "GOptionEntry list \<Rightarrow> string list \<Rightarrow> process \<Rightarrow> GError + process" where
  "g_option_context_parse entries argv p = parse_args entries (drop 1 argv) p"

definition g_print :: "string \<Rightarrow> process \<Rightarrow> process" where
  "g_print s p = p\<lparr>stdout := stdout p @ [s]\<rparr>"

text \<open>The \<^verbatim>\<open>%u\<close> conversion: an unsigned number in decimal.\<close>

fun decimal :: "nat \<Rightarrow> string" where
  "decimal n =
     (if n < 10 then [''0123456789'' ! n]
      else decimal (n div 10) @ [''0123456789'' ! (n mod 10)])"

definition format_u :: "32 word \<Rightarrow> string" where
  "format_u n = decimal (unat n)"

text \<open>The loop that fills \<^verbatim>\<open>commits\<close> from the keys of \<^verbatim>\<open>objects\<close>.\<close>

fun partition_commits :: "ObjectName list \<Rightarrow> GHashTable \<Rightarrow> GHashTable" where
  "partition_commits [] commits = commits"
| "partition_commits (serialized_key # rest) commits =
     (case ostree_object_name_deserialize serialized_key of (checksum, objtype) \<Rightarrow>
        if objtype = OSTREE_OBJECT_TYPE_COMMIT
        then partition_commits rest (g_hash_table_insert commits serialized_key)
        else partition_commits rest commits)"

definition msg_enumerating :: string where
  "msg_enumerating = ''Enumerating objects...'' @ [CHR 0x0A]"

definition msg_verifying_content :: "32 word \<Rightarrow> string" where
  "msg_verifying_content n =
     ''Verifying content integrity of '' @ format_u n @ '' commit objects...'' @ [CHR 0x0A]"

definition msg_verifying_packs :: string where
  "msg_verifying_packs = ''Verifying structure of pack files...'' @ [CHR 0x0A]"

definition ostree_builtin_fsck :: "string list \<Rightarrow> process \<Rightarrow> process \<times> outcome" where
  "ostree_builtin_fsck argv p0 =
     (case g_option_context_parse options argv p0 of
        Inl e \<Rightarrow> (p0, Ret_FALSE e)
      | Inr p1 \<Rightarrow>
     (let repo = store p1 in
      case ostree_repo_check repo of
        Inl e \<Rightarrow> (p1, Ret_FALSE e)
      | Inr _ \<Rightarrow>
     (let data = \<lparr>repo = repo, n_pack_files = 0\<rparr>;
          p2 = g_print msg_enumerating p1
      in case ostree_repo_list_objects repo of
        Inl e \<Rightarrow> (p2, Ret_FALSE e)
      | Inr objects \<Rightarrow>
     (let commits = partition_commits objects [];
          p3 = g_print (msg_verifying_content (word_of_nat (g_hash_table_size commits))) p2
      in case fsck_reachable_objects_from_commits data commits of
        Ret_FALSE e \<Rightarrow> (p3, Ret_FALSE e)
      | Aborted a \<Rightarrow> (p3, Aborted a)
      | Undefined_behaviour u \<Rightarrow> (p3, Undefined_behaviour u)
      | Ret_TRUE \<Rightarrow>
     (let p4 = g_print msg_verifying_packs p3
      in case fsck_pack_files data of
           (data', Ret_TRUE) \<Rightarrow> (p4, Ret_TRUE)
         | (data', Ret_FALSE e) \<Rightarrow> (p4, Ret_FALSE e)
         | (data', Aborted a) \<Rightarrow> (p4, Aborted a)
         | (data', Undefined_behaviour u) \<Rightarrow> (p4, Undefined_behaviour u))))))"

section \<open>Reachability traversal\<close>

text \<open>Modelled from the spec: \<^verbatim>\<open>ostree_traverse_commit\<close> and the object graph it walks are
  not among the sources; section 4.5 of the specification describes them. Starting from
  one commit the traversal visits the commit, its root DirMeta, its root DirTree, then the
  subdirectory DirTree/DirMeta pairs and the file objects of every DirTree it reaches.
  Each visited object is inserted into the accumulator, an object already present is not
  visited again, parent links are not followed, and a missing or malformed object aborts
  the traversal with an error, the accumulator staying as filled so far.\<close>

datatype stored_object =
    Commit_object "checksum option" checksum checksum
  | DirTree_object "(string \<times> checksum) list" "(string \<times> checksum \<times> checksum) list"
  | DirMeta_object
  | File_object

text \<open>Modelled from the spec: the objects of a store, by name, and the type under which
  it keeps file objects (section 3: RawFileContent or ArchivedFileMeta).\<close>

record object_store =
  stored :: "(ObjectName \<times> stored_object) list"
  file_objtype :: OstreeObjectType

text \<open>Modelled from the spec: a loaded object is malformed when it is not of the kind its
  name says.\<close>

fun well_formed :: "object_store \<Rightarrow> OstreeObjectType \<Rightarrow> stored_object \<Rightarrow> bool" where
  "well_formed S t (Commit_object parent root_tree root_meta) = (t = OSTREE_OBJECT_TYPE_COMMIT)"
| "well_formed S t (DirTree_object files dirs) = (t = OSTREE_OBJECT_TYPE_DIR_TREE)"
| "well_formed S t DirMeta_object = (t = OSTREE_OBJECT_TYPE_DIR_META)"
| "well_formed S t File_object = (t = file_objtype S)"

text \<open>Modelled from the spec: the objects an object refers to, in the order the spec lists
  them. The parent of a commit is not among them.\<close>

fun links :: "object_store \<Rightarrow> stored_object \<Rightarrow> ObjectName list" where
  "links S (Commit_object parent root_tree root_meta) =
     [(root_meta, OSTREE_OBJECT_TYPE_DIR_META), (root_tree, OSTREE_OBJECT_TYPE_DIR_TREE)]"
| "links S (DirTree_object files dirs) =
     concat (map (\<lambda>(name, tree, meta).
                    [(tree, OSTREE_OBJECT_TYPE_DIR_TREE), (meta, OSTREE_OBJECT_TYPE_DIR_META)]) dirs)
     @ map (\<lambda>(name, file). (file, file_objtype S)) files"
| "links S DirMeta_object = []"
| "links S File_object = []"

text \<open>Modelled from the spec: the recursive visit, with the objects still to visit kept in
  a list: the links of a newly visited object are visited before the objects that were
  already waiting. The accumulator is the visited set, so the visit ends on any store, also
  one whose objects refer to each other in a circle.\<close>

function traverse_pending ::
  "object_store \<Rightarrow> ObjectName list \<Rightarrow> GHashTable \<Rightarrow> GHashTable \<times> (GError + unit)" where
  "traverse_pending S [] accumulator = (accumulator, Inr ())"
| "traverse_pending S (name # pending) accumulator =
     (if name \<in> set accumulator then traverse_pending S pending accumulator
      else case map_of (stored S) name of
             None \<Rightarrow> (accumulator, Inl (Callee_error ''missing object''))
           | Some obj \<Rightarrow>
               if \<not> well_formed S (snd name) obj
               then (accumulator, Inl (Callee_error ''malformed object''))
               else traverse_pending S (links S obj @ pending) (accumulator @ [name]))"
  by pat_completeness auto
termination
proof (relation "measures [\<lambda>(S, pending, accumulator). card (fst ` set (stored S) - set accumulator),
                           \<lambda>(S, pending, accumulator). length pending]", goal_cases)
  case 1
  then show ?case by simp
next
  case (2 S name pending accumulator)
  then show ?case by simp
next
  case (3 S name pending accumulator obj)
  then have "name \<in> fst ` set (stored S)"
    by (metis map_of_SomeD fst_conv image_eqI)
  with 3 have "fst ` set (stored S) - set (accumulator @ [name])
                 \<subset> fst ` set (stored S) - set accumulator"
    by auto
  then have "card (fst ` set (stored S) - set (accumulator @ [name]))
               < card (fst ` set (stored S) - set accumulator)"
    by (intro psubset_card_mono) auto
  then show ?case by simp
qed

text \<open>Modelled from the spec: \<^verbatim>\<open>traverse_commit(store, checksum, flags, accumulator)\<close>.\<close>

definition traverse_commit ::
  "object_store \<Rightarrow> checksum \<Rightarrow> int \<Rightarrow> GHashTable \<Rightarrow> GHashTable \<times> (GError + unit)" where
  "traverse_commit S checksum flags accumulator =
     traverse_pending S [(checksum, OSTREE_OBJECT_TYPE_COMMIT)] accumulator"

section \<open>Predicates of the specification\<close>

subsection \<open>Packs\<close>

text \<open>The index of pack \<open>P\<close> maps and passes \<^verbatim>\<open>ostree_validate_structureof_pack_index\<close>.\<close>

definition pack_index_valid :: "OstreeRepo \<Rightarrow> checksum \<Rightarrow> bool" where
  "pack_index_valid r P =
     (case ot_util_variant_map r (ostree_repo_get_pack_index_path r P) of
        Inl e \<Rightarrow> False
      | Inr idx \<Rightarrow> ostree_validate_structureof_pack_index r idx = Inr ())"

text \<open>The offsets the index of \<open>P\<close> declares, decoded from big-endian.\<close>

definition pack_declared_offsets :: "OstreeRepo \<Rightarrow> checksum \<Rightarrow> 64 word list option" where
  "pack_declared_offsets r P =
     (case ot_util_variant_map r (ostree_repo_get_pack_index_path r P) of
        Inl e \<Rightarrow> None
      | Inr idx \<Rightarrow>
          Some (map (\<lambda>(objtype, csum, offset). GUINT64_FROM_BE offset) (index_content idx)))"

text \<open>The size of the data file of \<open>P\<close>.\<close>

definition pack_data_size :: "OstreeRepo \<Rightarrow> checksum \<Rightarrow> 64 word option" where
  "pack_data_size r P =
     (case g_file_read r (ostree_repo_get_pack_data_path r P) of
        Inl e \<Rightarrow> None
      | Inr input \<Rightarrow>
          (case g_file_input_stream_query_info r input of
             Inl e \<Rightarrow> None
           | Inr info \<Rightarrow> Some (standard_size info)))"

text \<open>The digest of the whole data file of \<open>P\<close>.\<close>

definition pack_content_checksum :: "OstreeRepo \<Rightarrow> checksum \<Rightarrow> checksum option" where
  "pack_content_checksum r P =
     (case g_file_read r (ostree_repo_get_pack_data_path r P) of
        Inl e \<Rightarrow> None
      | Inr input \<Rightarrow>
          (case ot_gio_checksum_stream r input of
             Inl e \<Rightarrow> None
           | Inr c \<Rightarrow> Some c))"

text \<open>Condition (a): re-hashing the data file gives the checksum that names the pack.
  Condition (b): every declared offset is at most the size of the data file.\<close>

definition pack_checksum_matches :: "OstreeRepo \<Rightarrow> checksum \<Rightarrow> bool" where
  "pack_checksum_matches r P = (pack_content_checksum r P = Some P)"

definition pack_offsets_in_range :: "OstreeRepo \<Rightarrow> checksum \<Rightarrow> bool" where
  "pack_offsets_in_range r P =
     (case (pack_declared_offsets r P, pack_data_size r P) of
        (Some offsets, Some pack_size) \<Rightarrow> list_all (\<lambda>offset. offset \<le> pack_size) offsets
      | _ \<Rightarrow> False)"

subsection \<open>Objects\<close>

text \<open>The digest of a metadata object: loaded, validated by the validator of its type,
  wrapped, and digested under its own type.\<close>

definition metadata_checksum ::
  "OstreeRepo \<Rightarrow> OstreeObjectType \<Rightarrow> checksum \<Rightarrow> (GVariant \<Rightarrow> GError + unit) \<Rightarrow> checksum option" where
  "metadata_checksum r t c validate =
     (case ostree_repo_load_variant r t c of
        Inl e \<Rightarrow> None
      | Inr metadata \<Rightarrow>
          (case validate metadata of
             Inl e \<Rightarrow> None
           | Inr u \<Rightarrow>
               (case ostree_checksum_file_from_input r None None
                       (ostree_wrap_metadata_variant r t metadata) t of
                  Inl e \<Rightarrow> None
                | Inr d \<Rightarrow> Some d)))"

text \<open>The digest of a file object: loaded as a file, its mode validated, and digested as
  a raw file.\<close>

definition file_checksum :: "OstreeRepo \<Rightarrow> checksum \<Rightarrow> checksum option" where
  "file_checksum r c =
     (case ostree_repo_load_file r c of
        Inl e \<Rightarrow> None
      | Inr (input, file_info, xattrs) \<Rightarrow>
          (case ostree_validate_structureof_file_mode r (unix_mode file_info) of
             Inl e \<Rightarrow> None
           | Inr u \<Rightarrow>
               (case ostree_checksum_file_from_input r (Some file_info) (Some xattrs) input
                       OSTREE_OBJECT_TYPE_RAW_FILE of
                  Inl e \<Rightarrow> None
                | Inr d \<Rightarrow> Some d)))"

text \<open>The checksum recomputed for an object: \<open>None\<close> when the object does not load, is
  structurally invalid or cannot be digested, and for archived file content, which has no
  digest of its own.\<close>

fun recomputed_checksum :: "OstreeRepo \<Rightarrow> ObjectName \<Rightarrow> checksum option" where
  "recomputed_checksum r (c, OSTREE_OBJECT_TYPE_COMMIT) =
     metadata_checksum r OSTREE_OBJECT_TYPE_COMMIT c (ostree_validate_structureof_commit r)"
| "recomputed_checksum r (c, OSTREE_OBJECT_TYPE_DIR_TREE) =
     metadata_checksum r OSTREE_OBJECT_TYPE_DIR_TREE c (ostree_validate_structureof_dirtree r)"
| "recomputed_checksum r (c, OSTREE_OBJECT_TYPE_DIR_META) =
     metadata_checksum r OSTREE_OBJECT_TYPE_DIR_META c (ostree_validate_structureof_dirmeta r)"
| "recomputed_checksum r (c, OSTREE_OBJECT_TYPE_RAW_FILE) = file_checksum r c"
| "recomputed_checksum r (c, OSTREE_OBJECT_TYPE_ARCHIVED_FILE_META) = file_checksum r c"
| "recomputed_checksum r (c, OSTREE_OBJECT_TYPE_ARCHIVED_FILE_CONTENT) = None"

text \<open>An object is checked when it was loaded, validated and digested, and the digest is
  the checksum in its name.\<close>

definition object_checked :: "OstreeRepo \<Rightarrow> ObjectName \<Rightarrow> bool" where
  "object_checked r name = (recomputed_checksum r name = Some (fst name))"

subsection \<open>The reachable table\<close>

text \<open>The enumerated names of type Commit, in the order of the enumeration, a name that is
  enumerated more than once standing where it first appears (\<open>remdups\<close> keeps the last
  occurrence of an element, hence the two reversals).\<close>

definition enumerated_commits :: "ObjectName list \<Rightarrow> ObjectName list" where
  "enumerated_commits objects =
     rev (remdups (rev (filter (\<lambda>k. snd k = OSTREE_OBJECT_TYPE_COMMIT) objects)))"

text \<open>The table that \<^verbatim>\<open>ostree_traverse_commit\<close> builds when it is run on each of the given
  commits in turn, with depth 0, starting from the empty table and handing each result on to
  the next run; \<open>None\<close> when one of the runs fails.\<close>

definition traverse_next :: "OstreeRepo \<Rightarrow> GHashTable option \<Rightarrow> ObjectName \<Rightarrow> GHashTable option" where
  "traverse_next r table k =
     (case table of
        None \<Rightarrow> None
      | Some t \<Rightarrow>
          (case ostree_traverse_commit r (fst k) 0 t of
             Inl e \<Rightarrow> None
           | Inr t' \<Rightarrow> Some t'))"

definition reachable_from_commits :: "OstreeRepo \<Rightarrow> ObjectName list \<Rightarrow> GHashTable option" where
  "reachable_from_commits r commits = foldl (traverse_next r) (Some []) commits"

section \<open>A small repository\<close>

text \<open>One commit \<open>c1\<close> with root tree \<open>t1\<close>, root metadata \<open>m1\<close> and one file \<open>f1\<close>
  of content \<open>hello\<close>, and one pack \<open>p1\<close> of three bytes whose index declares one
  object at offset 2. The digests are a table, good enough to tell a changed byte.\<close>

definition example_objects :: "ObjectName list" where
  "example_objects =
     [(''c1'', OSTREE_OBJECT_TYPE_COMMIT), (''m1'', OSTREE_OBJECT_TYPE_DIR_META),
      (''t1'', OSTREE_OBJECT_TYPE_DIR_TREE), (''f1'', OSTREE_OBJECT_TYPE_RAW_FILE)]"

definition example_digest :: "bytes \<Rightarrow> checksum" where
  "example_digest input =
     (if input = [1] then ''c1'' else if input = [2] then ''m1'' else if input = [3] then ''t1''
      else if input = [104, 101, 108, 108, 111] then ''f1''
      else if input = [7, 8, 9] then ''p1'' else ''00'')"

definition example_index :: pack_index where
  "example_index =
     \<lparr>index_header = ''OSTv0PACKINDEX'', index_metadata = [],
      index_content = [(1, [], 0x0200000000000000)]\<rparr>"

definition example_repo :: OstreeRepo where
  "example_repo =
     \<lparr>ostree_repo_check = Inr (),
      ostree_repo_list_objects = Inr example_objects,
      ostree_traverse_commit = (\<lambda>checksum maxdepth reachable.
         if checksum = ''c1'' then Inr (foldl g_hash_table_insert reachable example_objects)
         else Inl (Callee_error ''no such commit'')),
      ostree_repo_load_variant = (\<lambda>t c.
         if (c, t) = (''c1'', OSTREE_OBJECT_TYPE_COMMIT) then Inr [1]
         else if (c, t) = (''m1'', OSTREE_OBJECT_TYPE_DIR_META) then Inr [2]
         else if (c, t) = (''t1'', OSTREE_OBJECT_TYPE_DIR_TREE) then Inr [3]
         else Inl (Callee_error ''no such object'')),
      ostree_repo_load_file = (\<lambda>c.
         if c = ''f1''
         then Inr ([104, 101, 108, 108, 111], \<lparr>standard_size = 5, unix_mode = 0x81A4\<rparr>, [])
         else Inl (Callee_error ''no such file'')),
      ostree_validate_structureof_commit = (\<lambda>v. Inr ()),
      ostree_validate_structureof_dirtree = (\<lambda>v. Inr ()),
      ostree_validate_structureof_dirmeta = (\<lambda>v. Inr ()),
      ostree_validate_structureof_file_mode = (\<lambda>mode. Inr ()),
      ostree_wrap_metadata_variant = (\<lambda>t v. v),
      ostree_checksum_file_from_input = (\<lambda>file_info xattrs input t. Inr (example_digest input)),
      ostree_repo_list_pack_indexes = Inr [''p1''],
      ostree_repo_get_pack_index_path = (\<lambda>c. c @ ''.index''),
      ostree_repo_get_pack_data_path = (\<lambda>c. c @ ''.data''),
      ot_util_variant_map = (\<lambda>path.
         if path = ''p1.index'' then Inr example_index
         else Inl (Callee_error ''no such index'')),
      ostree_validate_structureof_pack_index = (\<lambda>idx.
         if index_header idx = ''OSTv0PACKINDEX'' then Inr ()
         else Inl (Callee_error ''invalid pack index header'')),
      g_file_read = (\<lambda>path.
         if path = ''p1.data'' then Inr [7, 8, 9]
         else Inl (Callee_error ''no such file'')),
      g_file_input_stream_query_info = (\<lambda>input.
         Inr \<lparr>standard_size = word_of_nat (length input), unix_mode = 0x81A4\<rparr>),
      ot_gio_checksum_stream = (\<lambda>input. Inr (example_digest input))\<rparr>"

definition example_process :: "OstreeRepo \<Rightarrow> process" where
  "example_process r = \<lparr>quiet = False, delete = False, stdout = [], store = r\<rparr>"

text \<open>The same objects as a store for the traversal.\<close>

definition example_store :: object_store where
  "example_store =
     \<lparr>stored =
        [((''c1'', OSTREE_OBJECT_TYPE_COMMIT), Commit_object None ''t1'' ''m1''),
         ((''m1'', OSTREE_OBJECT_TYPE_DIR_META), DirMeta_object),
         ((''t1'', OSTREE_OBJECT_TYPE_DIR_TREE), DirTree_object [(''hello.txt'', ''f1'')] []),
         ((''f1'', OSTREE_OBJECT_TYPE_RAW_FILE), File_object)],
      file_objtype = OSTREE_OBJECT_TYPE_RAW_FILE\<rparr>"

text \<open>Variants of it: an index whose header is wrong; an index declaring an offset
  past the end of the data file; a second listed pack that does not exist; a second pack
  whose data file opens and then fails to read while it is hashed; an enumerated file object
  that no commit reaches and that cannot be loaded; the content of the file changed to
  \<open>hellx\<close>; that, and the directory metadata changed as well; that, and a file \<open>zz\<close>
  that does not exist reached before anything else; an archived content object \<open>a1\<close>
  that is reached and cannot be loaded.\<close>

definition bad_header_repo :: OstreeRepo where
  "bad_header_repo =
     example_repo\<lparr>ot_util_variant_map := (\<lambda>path.
        if path = ''p1.index'' then Inr (example_index\<lparr>index_header := ''PACK''\<rparr>)
        else Inl (Callee_error ''no such index''))\<rparr>"

definition bad_offset_repo :: OstreeRepo where
  "bad_offset_repo =
     example_repo\<lparr>ot_util_variant_map := (\<lambda>path.
        if path = ''p1.index''
        then Inr (example_index\<lparr>index_content :=
                    [(1, [], 0x0200000000000000), (1, [], 0x0400000000000000)]\<rparr>)
        else Inl (Callee_error ''no such index''))\<rparr>"

definition two_pack_repo :: OstreeRepo where
  "two_pack_repo = example_repo\<lparr>ostree_repo_list_pack_indexes := Inr [''p1'', ''p2'']\<rparr>"

definition orphan_repo :: OstreeRepo where
  "orphan_repo =
     example_repo\<lparr>ostree_repo_list_objects :=
        Inr (example_objects @ [(''f2'', OSTREE_OBJECT_TYPE_RAW_FILE)])\<rparr>"

definition corrupted_repo :: OstreeRepo where
  "corrupted_repo =
     example_repo\<lparr>ostree_repo_load_file := (\<lambda>c.
        if c = ''f1''
        then Inr ([104, 101, 108, 108, 120], \<lparr>standard_size = 5, unix_mode = 0x81A4\<rparr>, [])
        else Inl (Callee_error ''no such file''))\<rparr>"


definition corrupted_meta_repo :: OstreeRepo where
  "corrupted_meta_repo =
     corrupted_repo\<lparr>ostree_repo_load_variant := (\<lambda>t c.
        if (c, t) = (''c1'', OSTREE_OBJECT_TYPE_COMMIT) then Inr [1]
        else if (c, t) = (''m1'', OSTREE_OBJECT_TYPE_DIR_META) then Inr [9]
        else if (c, t) = (''t1'', OSTREE_OBJECT_TYPE_DIR_TREE) then Inr [3]
        else Inl (Callee_error ''no such object''))\<rparr>"

definition missing_file_repo :: OstreeRepo where
  "missing_file_repo =
     corrupted_repo\<lparr>ostree_traverse_commit := (\<lambda>checksum maxdepth reachable.
        if checksum = ''c1''
        then Inr (foldl g_hash_table_insert reachable
                    ((''zz'', OSTREE_OBJECT_TYPE_RAW_FILE) # example_objects))
        else Inl (Callee_error ''no such commit''))\<rparr>"

definition archived_repo :: OstreeRepo where
  "archived_repo =
     example_repo\<lparr>ostree_repo_list_objects :=
        Inr (example_objects @ [(''a1'', OSTREE_OBJECT_TYPE_ARCHIVED_FILE_CONTENT)]),
        ostree_traverse_commit := (\<lambda>checksum maxdepth reachable.
          if checksum = ''c1''
          then Inr (foldl g_hash_table_insert reachable
                      (example_objects @ [(''a1'', OSTREE_OBJECT_TYPE_ARCHIVED_FILE_CONTENT)]))
          else Inl (Callee_error ''no such commit''))\<rparr>"

section \<open>Properties\<close>

subsection \<open>The pack loop\<close>

lemma check_offsets_ok:
  "(check_offsets P sz content = Inr ()) =
     list_all (\<lambda>offset. offset \<le> sz) (map (\<lambda>(objtype, csum, offset). GUINT64_FROM_BE offset) content)"
  by (induction P sz content rule: check_offsets.induct) (auto simp: Let_def not_less)

lemma check_offsets_bad:
  "find (\<lambda>offset. offset > sz) (map (\<lambda>(objtype, csum, offset). GUINT64_FROM_BE offset) content) = Some bad
   \<Longrightarrow> check_offsets P sz content = Inl (Corrupted_pack_offset P bad sz)"
  by (induction P sz content rule: check_offsets.induct) (auto simp: Let_def split: if_splits)

lemma fsck_pack_file_eq:
  "fsck_pack_file r checksum =
     (case ot_util_variant_map r (ostree_repo_get_pack_index_path r checksum) of
        Inl e \<Rightarrow> Inl e
      | Inr index_variant \<Rightarrow>
     (case ostree_validate_structureof_pack_index r index_variant of
        Inl e \<Rightarrow> Inl e
      | Inr u \<Rightarrow>
     (case g_file_read r (ostree_repo_get_pack_data_path r checksum) of
        Inl e \<Rightarrow> Inl e
      | Inr input \<Rightarrow>
     (case g_file_input_stream_query_info r input of
        Inl e \<Rightarrow> Inl e
      | Inr pack_info \<Rightarrow>
     (case ot_gio_checksum_stream r input of
        Inl e \<Rightarrow> Inl e
      | Inr digest \<Rightarrow>
          if digest \<noteq> checksum
          then Inl (Corrupted_pack_checksum checksum digest)
          else check_offsets checksum (standard_size pack_info) (index_content index_variant))))))"
  by (simp add: fsck_pack_file_def fsck_pack_iteration_def Let_def split: sum.split)

lemma fsck_pack_iteration_verdict:
  "(case fsck_pack_iteration r checksum pcc of
      Inl (e, p) \<Rightarrow> Inl e
    | Inr digest \<Rightarrow> Inr ()) = fsck_pack_file r checksum"
  by (simp add: fsck_pack_file_def fsck_pack_iteration_def Let_def split: sum.split)

lemma fsck_pack_iteration_Inr:
  "fsck_pack_iteration r checksum pcc = Inr digest \<Longrightarrow>
   fsck_pack_file r checksum = Inr ()"
  using fsck_pack_iteration_verdict[of r checksum pcc] by simp

lemma fsck_pack_iteration_Inl:
  "fsck_pack_iteration r checksum pcc = Inl (e, p) \<Longrightarrow>
   fsck_pack_file r checksum = Inl e"
  using fsck_pack_iteration_verdict[of r checksum pcc] by simp

lemma fsck_pack_file_ok:
  "(fsck_pack_file r P = Inr ()) =
     (pack_index_valid r P \<and> pack_checksum_matches r P \<and> pack_offsets_in_range r P)"
  by (auto simp: fsck_pack_file_eq pack_index_valid_def pack_content_checksum_def
        pack_checksum_matches_def
        pack_offsets_in_range_def pack_declared_offsets_def pack_data_size_def check_offsets_ok
        split: sum.splits)

lemma fsck_pack_file_checksum_error:
  "pack_index_valid r P \<Longrightarrow> pack_data_size r P = Some sz \<Longrightarrow>
   pack_content_checksum r P = Some actual \<Longrightarrow> actual \<noteq> P \<Longrightarrow>
   fsck_pack_file r P = Inl (Corrupted_pack_checksum P actual)"
  by (auto simp: fsck_pack_file_eq pack_index_valid_def pack_content_checksum_def
        pack_data_size_def split: sum.splits)

lemma fsck_pack_file_offset_error:
  "pack_index_valid r P \<Longrightarrow> pack_checksum_matches r P \<Longrightarrow>
   pack_declared_offsets r P = Some offsets \<Longrightarrow> pack_data_size r P = Some sz \<Longrightarrow>
   find (\<lambda>offset. offset > sz) offsets = Some bad \<Longrightarrow>
   fsck_pack_file r P = Inl (Corrupted_pack_offset P bad sz)"
  by (auto simp: fsck_pack_file_eq pack_index_valid_def pack_content_checksum_def
        pack_checksum_matches_def
        pack_declared_offsets_def pack_data_size_def check_offsets_bad split: sum.splits)

text \<open>The pointer leaves an iteration freed exactly when a checksum was live on entry and
  the hashing of the data file, reached after everything before it succeeded, fails.\<close>

lemma fsck_pack_iteration_freed:
  "(\<exists>e. fsck_pack_iteration r P pcc = Inl (e, Ptr_freed)) =
     (pcc \<noteq> None \<and> pack_index_valid r P \<and> pack_data_size r P \<noteq> None
        \<and> pack_content_checksum r P = None)"
  by (auto simp: fsck_pack_iteration_def pack_index_valid_def pack_data_size_def
        pack_content_checksum_def Let_def split: sum.splits option.splits)

lemma fsck_pack_loop_ok:
  "(snd (snd (fsck_pack_loop data pcc packs)) = Inr ()) =
     (\<forall>P\<in>set packs. fsck_pack_file (repo data) P = Inr ())"
  by (induction data pcc packs rule: fsck_pack_loop.induct)
     (auto split: sum.splits dest: fsck_pack_iteration_Inr fsck_pack_iteration_Inl)

lemma fsck_pack_loop_ok_pointer:
  "snd (snd (fsck_pack_loop data pcc packs)) = Inr () \<Longrightarrow>
   fst (snd (fsck_pack_loop data pcc packs)) \<noteq> Ptr_freed"
  by (induction data pcc packs rule: fsck_pack_loop.induct)
     (auto split: sum.splits option.splits)

lemma fsck_pack_loop_count:
  "n_pack_files (fst (fsck_pack_loop data pcc packs)) =
     n_pack_files data
       + word_of_nat (length (takeWhile (\<lambda>P. fsck_pack_file (repo data) P = Inr ()) packs))"
  by (induction data pcc packs rule: fsck_pack_loop.induct)
     (auto split: sum.splits dest: fsck_pack_iteration_Inr fsck_pack_iteration_Inl)

lemma fsck_pack_loop_first_failure:
  "snd (snd (fsck_pack_loop data pcc packs)) \<noteq> Inr () \<Longrightarrow>
   \<exists>pre P post e. packs = pre @ P # post \<and> (\<forall>Q\<in>set pre. fsck_pack_file (repo data) Q = Inr ()) \<and>
      fsck_pack_file (repo data) P = Inl e \<and> snd (snd (fsck_pack_loop data pcc packs)) = Inl e \<and>
      n_pack_files (fst (fsck_pack_loop data pcc packs)) = n_pack_files data + word_of_nat (length pre)"
proof (induction data pcc packs rule: fsck_pack_loop.induct)
  case (1 data pcc)
  then show ?case by simp
next
  case (2 data pcc checksum rest)
  show ?case
  proof (cases "fsck_pack_iteration (repo data) checksum pcc")
    case (Inl ep)
    obtain e p where ep: "ep = (e, p)" by (cases ep)
    from Inl ep have "fsck_pack_file (repo data) checksum = Inl e"
      by (simp add: fsck_pack_iteration_Inl)
    with Inl ep show ?thesis
      by (intro exI[of _ "[]"] exI[of _ checksum] exI[of _ rest] exI[of _ e]) simp
  next
    case (Inr digest)
    let ?d = "data\<lparr>n_pack_files := n_pack_files data + 1\<rparr>"
    have ok: "fsck_pack_file (repo data) checksum = Inr ()"
      using Inr by (rule fsck_pack_iteration_Inr)
    from 2 Inr obtain pre P post e where
      h: "rest = pre @ P # post" "\<forall>Q\<in>set pre. fsck_pack_file (repo data) Q = Inr ()"
         "fsck_pack_file (repo data) P = Inl e"
         "snd (snd (fsck_pack_loop ?d (Some digest) rest)) = Inl e"
         "n_pack_files (fst (fsck_pack_loop ?d (Some digest) rest))
            = n_pack_files data + 1 + word_of_nat (length pre)"
      by auto
    show ?thesis
      using h Inr ok
      by (intro exI[of _ "checksum # pre"] exI[of _ P] exI[of _ post] exI[of _ e]) auto
  qed
qed

text \<open>The loop arrives at \<^verbatim>\<open>out\<close> with a freed pointer exactly when the hashing fails for a
  pack that is not the first to be hashed.\<close>

lemma fsck_pack_loop_freed:
  "(fst (snd (fsck_pack_loop data pcc packs)) = Ptr_freed) =
     (\<exists>pre P post. packs = pre @ P # post
        \<and> (\<forall>Q\<in>set pre. fsck_pack_file (repo data) Q = Inr ())
        \<and> (pcc \<noteq> None \<or> pre \<noteq> [])
        \<and> pack_index_valid (repo data) P \<and> pack_data_size (repo data) P \<noteq> None
        \<and> pack_content_checksum (repo data) P = None)"
proof (induction data pcc packs rule: fsck_pack_loop.induct)
  case (1 data pcc)
  then show ?case by (simp split: option.split)
next
  case (2 data pcc checksum rest)
  let ?hash_fails = "\<lambda>P. pack_index_valid (repo data) P \<and> pack_data_size (repo data) P \<noteq> None
                         \<and> pack_content_checksum (repo data) P = None"
  let ?rhs = "\<lambda>pcc packs. \<exists>pre P post. packs = pre @ P # post
        \<and> (\<forall>Q\<in>set pre. fsck_pack_file (repo data) Q = Inr ())
        \<and> (pcc \<noteq> None \<or> pre \<noteq> []) \<and> ?hash_fails P"
  show ?case
  proof (cases "fsck_pack_iteration (repo data) checksum pcc")
    case (Inl ep)
    obtain e p where ep: "ep = (e, p)" by (cases ep)
    have failed: "fsck_pack_file (repo data) checksum = Inl e"
      using Inl ep by (simp add: fsck_pack_iteration_Inl)
    have here: "?rhs pcc (checksum # rest) = (pcc \<noteq> None \<and> ?hash_fails checksum)"
    proof
      assume "?rhs pcc (checksum # rest)"
      then obtain pre P post where
        h: "checksum # rest = pre @ P # post" "\<forall>Q\<in>set pre. fsck_pack_file (repo data) Q = Inr ()"
           "pcc \<noteq> None \<or> pre \<noteq> []" "?hash_fails P"
        by blast
      have "pre = []"
      proof (cases pre)
        case Nil
        then show ?thesis .
      next
        case (Cons a as)
        with h(1) have "a = checksum" by simp
        with Cons h(2) failed show ?thesis by simp
      qed
      with h show "pcc \<noteq> None \<and> ?hash_fails checksum" by simp
    next
      assume "pcc \<noteq> None \<and> ?hash_fails checksum"
      then show "?rhs pcc (checksum # rest)"
        by (intro exI[of _ "[]"] exI[of _ checksum] exI[of _ rest]) simp
    qed
    have "(p = Ptr_freed) = (\<exists>e'. fsck_pack_iteration (repo data) checksum pcc = Inl (e', Ptr_freed))"
      using Inl ep by auto
    also have "\<dots> = (pcc \<noteq> None \<and> ?hash_fails checksum)"
      by (rule fsck_pack_iteration_freed)
    finally show ?thesis
      using Inl ep here by simp
  next
    case (Inr digest)
    let ?d = "data\<lparr>n_pack_files := n_pack_files data + 1\<rparr>"
    have ok: "fsck_pack_file (repo data) checksum = Inr ()"
      using Inr by (rule fsck_pack_iteration_Inr)
    then have hashed: "pack_content_checksum (repo data) checksum \<noteq> None"
      by (simp add: fsck_pack_file_ok pack_checksum_matches_def)
    have ih: "(fst (snd (fsck_pack_loop ?d (Some digest) rest)) = Ptr_freed) = ?rhs (Some digest) rest"
      using "2.IH"[OF Inr] by simp
    have "?rhs pcc (checksum # rest) = ?rhs (Some digest) rest"
    proof
      assume "?rhs pcc (checksum # rest)"
      then obtain pre P post where
        h: "checksum # rest = pre @ P # post" "\<forall>Q\<in>set pre. fsck_pack_file (repo data) Q = Inr ()"
           "?hash_fails P"
        by blast
      obtain as where pre: "pre = checksum # as"
      proof (cases pre)
        case Nil
        with h(1) h(3) hashed show ?thesis by simp
      next
        case (Cons a as)
        with h(1) that show ?thesis by simp
      qed
      with h show "?rhs (Some digest) rest"
        by (intro exI[of _ as] exI[of _ P] exI[of _ post]) simp
    next
      assume "?rhs (Some digest) rest"
      then obtain pre P post where
        h: "rest = pre @ P # post" "\<forall>Q\<in>set pre. fsck_pack_file (repo data) Q = Inr ()"
           "?hash_fails P"
        by blast
      with ok show "?rhs pcc (checksum # rest)"
        by (intro exI[of _ "checksum # pre"] exI[of _ P] exI[of _ post]) simp
    qed
    with ih Inr show ?thesis by simp
  qed
qed

lemma fsck_pack_files_ok:
  assumes "ostree_repo_list_pack_indexes (repo data) = Inr packs"
  shows "(snd (fsck_pack_files data) = Ret_TRUE) =
           (\<forall>P\<in>set packs. fsck_pack_file (repo data) P = Inr ())"
proof -
  obtain d p ret where l: "fsck_pack_loop data None packs = (d, p, ret)"
    by (cases "fsck_pack_loop data None packs") auto
  have a: "(ret = Inr ()) = (\<forall>P\<in>set packs. fsck_pack_file (repo data) P = Inr ())"
    using fsck_pack_loop_ok[of data None packs] l by simp
  have b: "ret = Inr () \<Longrightarrow> p \<noteq> Ptr_freed"
    using fsck_pack_loop_ok_pointer[of data None packs] l by simp
  show ?thesis
    using assms l a b
    by (cases p; cases ret) (auto simp: fsck_pack_files_def fsck_pack_files_out_def)
qed

lemma fsck_pack_files_returns_FALSE:
  assumes "ostree_repo_list_pack_indexes (repo data) = Inr packs"
    and "snd (fsck_pack_files data) = Ret_FALSE e"
  shows "\<exists>pre P post. packs = pre @ P # post
           \<and> (\<forall>Q\<in>set pre. fsck_pack_file (repo data) Q = Inr ())
           \<and> fsck_pack_file (repo data) P = Inl e
           \<and> n_pack_files (fst (fsck_pack_files data)) = n_pack_files data + word_of_nat (length pre)"
proof -
  obtain d p ret where l: "fsck_pack_loop data None packs = (d, p, ret)"
    by (cases "fsck_pack_loop data None packs") auto
  have ret: "ret = Inl e"
    using assms l by (cases p; cases ret) (auto simp: fsck_pack_files_def fsck_pack_files_out_def)
  then have "snd (snd (fsck_pack_loop data None packs)) \<noteq> Inr ()" using l by simp
  from fsck_pack_loop_first_failure[OF this] l ret assms(1)
  show ?thesis by (auto simp: fsck_pack_files_def)
qed

lemma fsck_pack_files_count:
  assumes "ostree_repo_list_pack_indexes (repo data) = Inr packs"
  shows "n_pack_files (fst (fsck_pack_files data)) =
           n_pack_files data
             + word_of_nat (length (takeWhile (\<lambda>P. fsck_pack_file (repo data) P = Inr ()) packs))"
  using assms fsck_pack_loop_count[of data None packs]
  by (auto simp: fsck_pack_files_def split: prod.split)

lemma fsck_pack_files_undefined:
  assumes "ostree_repo_list_pack_indexes (repo data) = Inr packs"
  shows "(\<exists>u. snd (fsck_pack_files data) = Undefined_behaviour u) =
           (\<exists>pre P post. packs = pre @ P # post
              \<and> (\<forall>Q\<in>set pre. fsck_pack_file (repo data) Q = Inr ()) \<and> pre \<noteq> []
              \<and> pack_index_valid (repo data) P \<and> pack_data_size (repo data) P \<noteq> None
              \<and> pack_content_checksum (repo data) P = None)"
proof -
  obtain d p ret where l: "fsck_pack_loop data None packs = (d, p, ret)"
    by (cases "fsck_pack_loop data None packs") auto
  have "(\<exists>u. snd (fsck_pack_files data) = Undefined_behaviour u) = (p = Ptr_freed)"
    using assms l by (cases p; cases ret) (auto simp: fsck_pack_files_def fsck_pack_files_out_def)
  then show ?thesis
    using fsck_pack_loop_freed[of data None packs] l by simp
qed

lemma fsck_pack_files_not_aborted: "snd (fsck_pack_files data) \<noteq> Aborted a"
  by (auto simp: fsck_pack_files_def fsck_pack_files_out_def
        split: sum.splits prod.splits GChecksum_ptr.splits)

lemma fsck_pack_files_list_failure:
  "ostree_repo_list_pack_indexes (repo data) = Inl e \<Longrightarrow> fsck_pack_files data = (data, Ret_FALSE e)"
  by (simp add: fsck_pack_files_def fsck_pack_files_out_def)

lemma GUINT64_FROM_BE_example: "GUINT64_FROM_BE 0x0102030405060708 = 0x0807060504030201"
  by (simp add: GUINT64_FROM_BE_def)

text \<open>The counter on every run that returns: it has grown by the number of listed packs
  when the function returns TRUE, and by the number of packs before the failing one when it
  returns FALSE.\<close>

lemma fsck_pack_files_counter:
  assumes listed: "ostree_repo_list_pack_indexes (repo data) = Inr packs"
  shows "(snd (fsck_pack_files data) = Ret_TRUE \<longrightarrow>
            n_pack_files (fst (fsck_pack_files data)) = n_pack_files data + word_of_nat (length packs))
       \<and> (\<forall>e. snd (fsck_pack_files data) = Ret_FALSE e \<longrightarrow>
            (\<exists>pre P post. packs = pre @ P # post
               \<and> (\<forall>Q\<in>set pre. fsck_pack_file (repo data) Q = Inr ())
               \<and> fsck_pack_file (repo data) P = Inl e
               \<and> n_pack_files (fst (fsck_pack_files data))
                   = n_pack_files data + word_of_nat (length pre)))"
proof (intro conjI impI allI)
  assume "snd (fsck_pack_files data) = Ret_TRUE"
  then have "\<forall>P\<in>set packs. fsck_pack_file (repo data) P = Inr ()"
    by (simp add: fsck_pack_files_ok[OF listed])
  then have tw: "takeWhile (\<lambda>P. fsck_pack_file (repo data) P = Inr ()) packs = packs"
    by simp
  show "n_pack_files (fst (fsck_pack_files data)) = n_pack_files data + word_of_nat (length packs)"
    using fsck_pack_files_count[OF listed] unfolding tw .
next
  fix e
  assume "snd (fsck_pack_files data) = Ret_FALSE e"
  with listed show "\<exists>pre P post. packs = pre @ P # post
               \<and> (\<forall>Q\<in>set pre. fsck_pack_file (repo data) Q = Inr ())
               \<and> fsck_pack_file (repo data) P = Inl e
               \<and> n_pack_files (fst (fsck_pack_files data))
                   = n_pack_files data + word_of_nat (length pre)"
    by (rule fsck_pack_files_returns_FALSE)
qed

subsection \<open>The object loop\<close>

lemma compare_checksum_eq:
  "compare_checksum r c t fi xa input ct =
     (case ostree_checksum_file_from_input r fi xa input ct of
        Inl e \<Rightarrow> Ret_FALSE e
      | Inr d \<Rightarrow> if c \<noteq> d then Ret_FALSE (Corrupted_object c t d) else Ret_TRUE)"
  by (simp add: compare_checksum_def)

lemma verify_object_commit:
  "verify_object r (c, OSTREE_OBJECT_TYPE_COMMIT) =
     (case ostree_repo_load_variant r OSTREE_OBJECT_TYPE_COMMIT c of
        Inl e \<Rightarrow> Ret_FALSE e
      | Inr metadata \<Rightarrow>
          (case ostree_validate_structureof_commit r metadata of
             Inl e \<Rightarrow> Ret_FALSE e
           | Inr u \<Rightarrow>
               compare_checksum r c OSTREE_OBJECT_TYPE_COMMIT None None
                 (ostree_wrap_metadata_variant r OSTREE_OBJECT_TYPE_COMMIT metadata)
                 OSTREE_OBJECT_TYPE_COMMIT))"
  by (simp add: verify_object_def ostree_object_name_deserialize_def Let_def split: sum.split)

lemma verify_object_dirtree:
  "verify_object r (c, OSTREE_OBJECT_TYPE_DIR_TREE) =
     (case ostree_repo_load_variant r OSTREE_OBJECT_TYPE_DIR_TREE c of
        Inl e \<Rightarrow> Ret_FALSE e
      | Inr metadata \<Rightarrow>
          (case ostree_validate_structureof_dirtree r metadata of
             Inl e \<Rightarrow> Ret_FALSE e
           | Inr u \<Rightarrow>
               compare_checksum r c OSTREE_OBJECT_TYPE_DIR_TREE None None
                 (ostree_wrap_metadata_variant r OSTREE_OBJECT_TYPE_DIR_TREE metadata)
                 OSTREE_OBJECT_TYPE_DIR_TREE))"
  by (simp add: verify_object_def ostree_object_name_deserialize_def Let_def split: sum.split)

lemma verify_object_dirmeta:
  "verify_object r (c, OSTREE_OBJECT_TYPE_DIR_META) =
     (case ostree_repo_load_variant r OSTREE_OBJECT_TYPE_DIR_META c of
        Inl e \<Rightarrow> Ret_FALSE e
      | Inr metadata \<Rightarrow>
          (case ostree_validate_structureof_dirmeta r metadata of
             Inl e \<Rightarrow> Ret_FALSE e
           | Inr u \<Rightarrow>
               compare_checksum r c OSTREE_OBJECT_TYPE_DIR_META None None
                 (ostree_wrap_metadata_variant r OSTREE_OBJECT_TYPE_DIR_META metadata)
                 OSTREE_OBJECT_TYPE_DIR_META))"
  by (simp add: verify_object_def ostree_object_name_deserialize_def Let_def split: sum.split)

lemma verify_object_raw_file:
  "verify_object r (c, OSTREE_OBJECT_TYPE_RAW_FILE) =
     (case ostree_repo_load_file r c of
        Inl e \<Rightarrow> Ret_FALSE e
      | Inr (input, file_info, xattrs) \<Rightarrow>
          (case ostree_validate_structureof_file_mode r (unix_mode file_info) of
             Inl e \<Rightarrow> Ret_FALSE e
           | Inr u \<Rightarrow>
               compare_checksum r c OSTREE_OBJECT_TYPE_RAW_FILE (Some file_info) (Some xattrs) input
                 OSTREE_OBJECT_TYPE_RAW_FILE))"
  by (simp add: verify_object_def ostree_object_name_deserialize_def Let_def split: sum.split)

lemma verify_object_archived_meta:
  "verify_object r (c, OSTREE_OBJECT_TYPE_ARCHIVED_FILE_META) =
     (case ostree_repo_load_file r c of
        Inl e \<Rightarrow> Ret_FALSE e
      | Inr (input, file_info, xattrs) \<Rightarrow>
          (case ostree_validate_structureof_file_mode r (unix_mode file_info) of
             Inl e \<Rightarrow> Ret_FALSE e
           | Inr u \<Rightarrow>
               compare_checksum r c OSTREE_OBJECT_TYPE_ARCHIVED_FILE_META (Some file_info)
                 (Some xattrs) input OSTREE_OBJECT_TYPE_RAW_FILE))"
  by (simp add: verify_object_def ostree_object_name_deserialize_def Let_def split: sum.split)

lemma verify_object_archived_content:
  "verify_object r (c, OSTREE_OBJECT_TYPE_ARCHIVED_FILE_CONTENT) = Ret_TRUE"
  by (simp add: verify_object_def ostree_object_name_deserialize_def)

lemmas verify_object_simps = verify_object_commit verify_object_dirtree verify_object_dirmeta
  verify_object_raw_file verify_object_archived_meta verify_object_archived_content

lemma verify_object_ok:
  "(verify_object r k = Ret_TRUE) =
     (snd k = OSTREE_OBJECT_TYPE_ARCHIVED_FILE_CONTENT \<or> object_checked r k)"
proof (cases k)
  case (Pair c t)
  then show ?thesis
    by (cases t)
       (auto simp: verify_object_simps compare_checksum_eq object_checked_def file_checksum_def
          metadata_checksum_def split: sum.splits)
qed

lemma verify_object_mismatch:
  assumes "recomputed_checksum r (c, t) = Some d" and "d \<noteq> c"
  shows "verify_object r (c, t) = Ret_FALSE (Corrupted_object c t d)"
  using assms
  by (cases t)
     (auto simp: verify_object_simps compare_checksum_eq file_checksum_def
        metadata_checksum_def split: sum.splits)

lemma verify_object_not_aborted: "verify_object r k \<noteq> Aborted a"
proof (cases k)
  case (Pair c t)
  then show ?thesis
    by (cases t)
       (auto simp: verify_object_simps compare_checksum_eq split: sum.splits)
qed

lemma verify_object_returns:
  "verify_object r k = Ret_TRUE \<or> (\<exists>e. verify_object r k = Ret_FALSE e)"
proof (cases k)
  case (Pair c t)
  then show ?thesis
    by (cases t)
       (auto simp: verify_object_simps compare_checksum_eq split: sum.splits)
qed

lemma verify_objects_ok:
  "(verify_objects r ks = Ret_TRUE) = (\<forall>k\<in>set ks. verify_object r k = Ret_TRUE)"
  by (induction ks) (auto split: outcome.splits)

lemma verify_objects_not_aborted: "verify_objects r ks \<noteq> Aborted a"
  by (induction ks) (auto simp: verify_object_not_aborted split: outcome.splits)

lemma verify_objects_first_failure:
  assumes "\<forall>k\<in>set pre. verify_object r k = Ret_TRUE" and "verify_object r k = Ret_FALSE e"
  shows "verify_objects r (pre @ k # post) = Ret_FALSE e"
  using assms by (induction pre) auto

lemma traverse_commits_not_aborted:
  "\<forall>k\<in>set commits. snd k = OSTREE_OBJECT_TYPE_COMMIT \<Longrightarrow>
   snd (traverse_commits r commits reachable) \<noteq> Aborted a"
  by (induction r commits reachable rule: traverse_commits.induct)
     (auto simp: ostree_object_name_deserialize_def split: sum.splits)

lemma fsck_reachable_ok:
  "(fsck_reachable_objects_from_commits data commits = Ret_TRUE) =
     (\<exists>reachable. traverse_commits (repo data) commits ostree_traverse_new_reachable = (reachable, Ret_TRUE)
        \<and> verify_objects (repo data) reachable = Ret_TRUE)"
  by (auto simp: fsck_reachable_objects_from_commits_def Let_def split: prod.splits outcome.splits)

lemma traverse_next_None: "traverse_next r None k = None"
  by (simp add: traverse_next_def)

lemma traverse_next_Some:
  "traverse_next r (Some table) (c, t) =
     (case ostree_traverse_commit r c 0 table of Inl e \<Rightarrow> None | Inr table' \<Rightarrow> Some table')"
  by (simp add: traverse_next_def)

lemma foldl_traverse_next_None: "foldl (traverse_next r) None commits = None"
  by (induction commits) (simp_all add: traverse_next_None)

lemma traverse_commits_reachable:
  "\<forall>k\<in>set commits. snd k = OSTREE_OBJECT_TYPE_COMMIT \<Longrightarrow>
   (traverse_commits r commits table = (reachable, Ret_TRUE))
     = (foldl (traverse_next r) (Some table) commits = Some reachable)"
proof (induction commits arbitrary: table)
  case Nil
  then show ?case by auto
next
  case (Cons k commits)
  obtain c t where k: "k = (c, t)" by (cases k)
  with Cons.prems have t: "t = OSTREE_OBJECT_TYPE_COMMIT" by simp
  show ?case
  proof (cases "ostree_traverse_commit r c 0 table")
    case (Inl e)
    then show ?thesis
      by (simp add: k t ostree_object_name_deserialize_def traverse_next_Some
            foldl_traverse_next_None)
  next
    case (Inr table')
    have "(traverse_commits r commits table' = (reachable, Ret_TRUE))
            = (foldl (traverse_next r) (Some table') commits = Some reachable)"
      using Cons.prems by (intro Cons.IH) simp
    with Inr show ?thesis
      by (simp add: k t ostree_object_name_deserialize_def traverse_next_Some)
  qed
qed

subsection \<open>The partition loop and the option parser\<close>

lemma partition_commits_Cons:
  "partition_commits ((c, t) # rest) commits =
     (if t = OSTREE_OBJECT_TYPE_COMMIT
      then partition_commits rest (g_hash_table_insert commits (c, t))
      else partition_commits rest commits)"
  by (simp add: ostree_object_name_deserialize_def)

lemma set_g_hash_table_insert: "set (g_hash_table_insert table k) = insert k (set table)"
  by (auto simp: g_hash_table_insert_def)

lemma distinct_g_hash_table_insert: "distinct table \<Longrightarrow> distinct (g_hash_table_insert table k)"
  by (simp add: g_hash_table_insert_def)

lemma partition_commits_set:
  "set (partition_commits objects commits) =
     set commits \<union> {k \<in> set objects. snd k = OSTREE_OBJECT_TYPE_COMMIT}"
proof (induction objects arbitrary: commits)
  case Nil
  then show ?case by simp
next
  case (Cons k rest)
  obtain c t where k: "k = (c, t)" by (cases k)
  show ?case
    unfolding k partition_commits_Cons
    by (auto simp: Cons.IH set_g_hash_table_insert)
qed

lemma partition_commits_distinct:
  "distinct commits \<Longrightarrow> distinct (partition_commits objects commits)"
proof (induction objects arbitrary: commits)
  case Nil
  then show ?case by simp
next
  case (Cons k rest)
  obtain c t where k: "k = (c, t)" by (cases k)
  show ?case
    unfolding k partition_commits_Cons
    using Cons.prems by (simp add: Cons.IH distinct_g_hash_table_insert)
qed

lemma remdups_snoc: "remdups (xs @ [x]) = filter (\<lambda>y. y \<noteq> x) (remdups xs) @ [x]"
  by (induction xs) auto

lemma enumerated_commits_Cons:
  "enumerated_commits ((c, t) # rest) =
     (if t = OSTREE_OBJECT_TYPE_COMMIT
      then (c, t) # filter (\<lambda>k. k \<noteq> (c, t)) (enumerated_commits rest)
      else enumerated_commits rest)"
  by (simp add: enumerated_commits_def remdups_snoc rev_filter)

lemma partition_commits_append:
  "partition_commits objects commits
     = commits @ filter (\<lambda>k. k \<notin> set commits) (enumerated_commits objects)"
proof (induction objects arbitrary: commits)
  case Nil
  then show ?case by (simp add: enumerated_commits_def)
next
  case (Cons k rest)
  obtain c t where k: "k = (c, t)" by (cases k)
  show ?case
  proof (cases "t = OSTREE_OBJECT_TYPE_COMMIT")
    case False
    then show ?thesis
      unfolding k partition_commits_Cons enumerated_commits_Cons by (simp add: Cons.IH)
  next
    case True
    show ?thesis
    proof (cases "(c, t) \<in> set commits")
      case inside: True
      have "filter (\<lambda>x. x \<notin> set commits) (filter (\<lambda>x. x \<noteq> (c, t)) (enumerated_commits rest))
              = filter (\<lambda>x. x \<notin> set commits) (enumerated_commits rest)"
        using inside by (auto intro: filter_cong)
      with True inside show ?thesis
        unfolding k partition_commits_Cons enumerated_commits_Cons
        by (simp add: Cons.IH g_hash_table_insert_def)
    next
      case outside: False
      have "filter (\<lambda>x. x \<notin> set (commits @ [(c, t)])) (enumerated_commits rest)
              = filter (\<lambda>x. x \<notin> set commits) (filter (\<lambda>x. x \<noteq> (c, t)) (enumerated_commits rest))"
        by (auto intro: filter_cong)
      with True outside show ?thesis
        unfolding k partition_commits_Cons enumerated_commits_Cons
        by (simp add: Cons.IH g_hash_table_insert_def)
    qed
  qed
qed

lemma partition_commits_enumerated: "partition_commits objects [] = enumerated_commits objects"
  by (simp add: partition_commits_append)

lemma enumerated_commits_distinct:
  "distinct objects \<Longrightarrow>
   enumerated_commits objects = filter (\<lambda>k. snd k = OSTREE_OBJECT_TYPE_COMMIT) objects"
  by (simp add: enumerated_commits_def distinct_remdups_id)

lemma enumerated_commits_are_commits:
  "\<forall>k\<in>set (enumerated_commits objects). snd k = OSTREE_OBJECT_TYPE_COMMIT"
  by (simp add: enumerated_commits_def)

lemma set_flag_keeps: "store (set_flag a p) = store p \<and> stdout (set_flag a p) = stdout p"
  by (cases a) (simp_all add: set_flag_def)

lemma parse_short_keeps:
  "parse_short entries cs p = Inr p' \<Longrightarrow> store p' = store p \<and> stdout p' = stdout p"
  by (induction entries cs p rule: parse_short.induct)
     (auto simp: set_flag_keeps split: option.splits)

lemma parse_args_keeps:
  "parse_args entries args p = Inr p' \<Longrightarrow> store p' = store p \<and> stdout p' = stdout p"
proof (induction entries args p rule: parse_args.induct)
  case (1 entries p)
  then show ?case by simp
next
  case (2 entries arg rest p)
  show ?case
  proof (cases "arg = ''--''")
    case True
    with 2 show ?thesis by simp
  next
    case dd: False
    show ?thesis
    proof (cases "take 2 arg = ''--''")
      case True
      with dd 2 show ?thesis
        by (auto simp: set_flag_keeps split: option.splits)
    next
      case long: False
      show ?thesis
      proof (cases "take 1 arg = ''-'' \<and> 1 < length arg")
        case True
        with dd long 2 show ?thesis
          by (auto split: sum.splits dest: parse_short_keeps)
      next
        case False
        with dd long 2 show ?thesis by auto
      qed
    qed
  qed
qed

lemma g_option_context_parse_keeps:
  "g_option_context_parse entries argv p = Inr p' \<Longrightarrow> store p' = store p \<and> stdout p' = stdout p"
  by (simp add: g_option_context_parse_def parse_args_keeps)

subsection \<open>The builtin\<close>

lemma builtin_after_parse:
  assumes "g_option_context_parse options argv p0 = Inr p1"
    and "ostree_repo_check (store p1) = Inr ()"
  shows "ostree_builtin_fsck argv p0 =
     (case ostree_repo_list_objects (store p1) of
        Inl e \<Rightarrow> (g_print msg_enumerating p1, Ret_FALSE e)
      | Inr objects \<Rightarrow>
          (let commits = partition_commits objects [];
               p3 = g_print (msg_verifying_content (word_of_nat (g_hash_table_size commits)))
                      (g_print msg_enumerating p1)
           in case fsck_reachable_objects_from_commits \<lparr>repo = store p1, n_pack_files = 0\<rparr> commits of
                Ret_TRUE \<Rightarrow>
                  (g_print msg_verifying_packs p3,
                   snd (fsck_pack_files \<lparr>repo = store p1, n_pack_files = 0\<rparr>))
              | Ret_FALSE e \<Rightarrow> (p3, Ret_FALSE e)
              | Aborted a \<Rightarrow> (p3, Aborted a)
              | Undefined_behaviour u \<Rightarrow> (p3, Undefined_behaviour u)))"
  using assms
  by (simp add: ostree_builtin_fsck_def Let_def split: sum.split outcome.split prod.split)

lemma builtin_success:
  assumes "snd (ostree_builtin_fsck argv p0) = Ret_TRUE"
  shows "\<exists>p1 objects. g_option_context_parse options argv p0 = Inr p1
           \<and> ostree_repo_check (store p1) = Inr ()
           \<and> ostree_repo_list_objects (store p1) = Inr objects
           \<and> fsck_reachable_objects_from_commits \<lparr>repo = store p1, n_pack_files = 0\<rparr>
                (partition_commits objects []) = Ret_TRUE
           \<and> snd (fsck_pack_files \<lparr>repo = store p1, n_pack_files = 0\<rparr>) = Ret_TRUE"
proof (cases "g_option_context_parse options argv p0")
  case (Inl e)
  with assms show ?thesis by (simp add: ostree_builtin_fsck_def)
next
  case (Inr p1)
  show ?thesis
  proof (cases "ostree_repo_check (store p1)")
    case (Inl e)
    with assms Inr show ?thesis by (simp add: ostree_builtin_fsck_def)
  next
    case check: (Inr u)
    then have check': "ostree_repo_check (store p1) = Inr ()" by simp
    show ?thesis
      using assms unfolding builtin_after_parse[OF Inr check']
      by (auto simp: Inr check' Let_def split: sum.splits outcome.splits)
  qed
qed

lemma fsck_reachable_enumerated:
  "(fsck_reachable_objects_from_commits data (partition_commits objects []) = Ret_TRUE) =
     (\<exists>reachable. reachable_from_commits (repo data) (enumerated_commits objects) = Some reachable
        \<and> (\<forall>k\<in>set reachable. snd k \<noteq> OSTREE_OBJECT_TYPE_ARCHIVED_FILE_CONTENT
               \<longrightarrow> object_checked (repo data) k))"
proof -
  have "(traverse_commits (repo data) (enumerated_commits objects) [] = (reachable, Ret_TRUE))
          = (reachable_from_commits (repo data) (enumerated_commits objects) = Some reachable)"
    for reachable
    unfolding reachable_from_commits_def
    using enumerated_commits_are_commits by (rule traverse_commits_reachable)
  then show ?thesis
    unfolding fsck_reachable_ok partition_commits_enumerated ostree_traverse_new_reachable_def
    by (auto simp: verify_objects_ok verify_object_ok)
qed

lemma builtin_keeps_store: "store (fst (ostree_builtin_fsck argv p0)) = store p0"
proof (cases "g_option_context_parse options argv p0")
  case (Inl e)
  then show ?thesis by (simp add: ostree_builtin_fsck_def)
next
  case (Inr p1)
  then have s: "store p1 = store p0" by (simp add: g_option_context_parse_keeps)
  show ?thesis
  proof (cases "ostree_repo_check (store p1)")
    case (Inl e)
    with Inr s show ?thesis by (simp add: ostree_builtin_fsck_def)
  next
    case check: (Inr u)
    then have check': "ostree_repo_check (store p1) = Inr ()" by simp
    show ?thesis
      unfolding builtin_after_parse[OF Inr check']
      by (simp add: s g_print_def Let_def split: sum.split outcome.split)
  qed
qed

lemma builtin_prints_when_quiet:
  assumes "g_option_context_parse options argv p0 = Inr p1"
    and "ostree_repo_check (store p1) = Inr ()"
  shows "take (Suc (length (stdout p0))) (stdout (fst (ostree_builtin_fsck argv p0)))
           = stdout p0 @ [msg_enumerating]"
proof -
  have "stdout p1 = stdout p0"
    using assms(1) by (simp add: g_option_context_parse_keeps)
  then show ?thesis
    unfolding builtin_after_parse[OF assms]
    by (simp add: g_print_def Let_def split: sum.split outcome.split)
qed

subsection \<open>The traversal\<close>

lemma traverse_pending_mono: "set accumulator \<subseteq> set (fst (traverse_pending S pending accumulator))"
  by (induction S pending accumulator rule: traverse_pending.induct)
     (auto split: option.splits)

subsection \<open>The small repository, run\<close>

lemmas example_defs = example_repo_def example_index_def example_digest_def example_objects_def
  example_process_def

lemmas run_defs = ostree_builtin_fsck_def g_option_context_parse_def options_def set_flag_def
  g_print_def g_hash_table_size_def g_hash_table_insert_def ostree_object_name_deserialize_def
  fsck_reachable_objects_from_commits_def ostree_traverse_new_reachable_def
  verify_object_def compare_checksum_def
  fsck_pack_files_def fsck_pack_files_out_def fsck_pack_file_def fsck_pack_iteration_def
  GUINT64_FROM_BE_def
  msg_enumerating_def msg_verifying_content_def msg_verifying_packs_def format_u_def

lemma example_reachable:
  "traverse_commits example_repo [(''c1'', OSTREE_OBJECT_TYPE_COMMIT)] [] = (example_objects, Ret_TRUE)"
  by (simp add: example_defs run_defs)

lemma example_run:
  "ostree_builtin_fsck [''fsck''] (example_process example_repo) =
     (\<lparr>quiet = False, delete = False,
       stdout = [''Enumerating objects...'' @ [CHR 0x0A],
                 ''Verifying content integrity of 1 commit objects...'' @ [CHR 0x0A],
                 ''Verifying structure of pack files...'' @ [CHR 0x0A]],
       store = example_repo\<rparr>, Ret_TRUE)"
  by (simp add: example_defs run_defs)

lemma two_pack_run:
  "fsck_pack_files \<lparr>repo = two_pack_repo, n_pack_files = 0\<rparr>
     = (\<lparr>repo = two_pack_repo, n_pack_files = 1\<rparr>, Ret_FALSE (Callee_error ''no such index''))"
  by (simp add: two_pack_repo_def example_defs run_defs)

lemma traverse_example:
  "traverse_commit example_store ''c1'' 0 [] = (example_objects, Inr ())"
  by (simp add: traverse_commit_def example_store_def example_objects_def)

section \<open>The specified properties\<close>

text \<open>C1, as amended. For every pack \<open>P\<close> listed by the repository, the loop body of
  \<^verbatim>\<open>fsck_pack_files\<close> succeeds on \<open>P\<close> if and only if the index of \<open>P\<close> maps and passes
  structural validation, (a) re-hashing the whole data file of \<open>P\<close> gives the checksum that
  names the pack, and (b) every offset declared in the index, decoded from big-endian, is at
  most the size of the data file; and \<^verbatim>\<open>fsck_pack_files\<close> returns TRUE if and only if this
  holds of every listed pack. When the index is valid, the data file can be read and its
  digest differs from the name, the error carries the pack checksum and the digest found;
  when the index is valid, (a) holds and some offset is too large, the error carries the
  pack checksum, the first such offset and the file size.\<close>

theorem pack_verification:
  assumes listed: "ostree_repo_list_pack_indexes (repo data) = Inr packs"
  shows "(snd (fsck_pack_files data) = Ret_TRUE) =
           (\<forall>P\<in>set packs. pack_index_valid (repo data) P \<and> pack_checksum_matches (repo data) P
                            \<and> pack_offsets_in_range (repo data) P)
         \<and> (\<forall>P\<in>set packs.
              (fsck_pack_file (repo data) P = Inr ()) =
                (pack_index_valid (repo data) P \<and> pack_checksum_matches (repo data) P
                   \<and> pack_offsets_in_range (repo data) P)
              \<and> (\<forall>sz actual. pack_index_valid (repo data) P \<and> pack_data_size (repo data) P = Some sz
                     \<and> pack_content_checksum (repo data) P = Some actual \<and> actual \<noteq> P
                   \<longrightarrow> fsck_pack_file (repo data) P = Inl (Corrupted_pack_checksum P actual))
              \<and> (\<forall>offsets sz bad. pack_index_valid (repo data) P \<and> pack_checksum_matches (repo data) P
                     \<and> pack_declared_offsets (repo data) P = Some offsets
                     \<and> pack_data_size (repo data) P = Some sz
                     \<and> find (\<lambda>offset. offset > sz) offsets = Some bad
                   \<longrightarrow> fsck_pack_file (repo data) P = Inl (Corrupted_pack_offset P bad sz)))"
proof (intro conjI ballI allI impI)
  show "(snd (fsck_pack_files data) = Ret_TRUE) =
           (\<forall>P\<in>set packs. pack_index_valid (repo data) P \<and> pack_checksum_matches (repo data) P
                            \<and> pack_offsets_in_range (repo data) P)"
    by (simp add: fsck_pack_files_ok[OF listed] fsck_pack_file_ok)
next
  fix P
  show "(fsck_pack_file (repo data) P = Inr ()) =
          (pack_index_valid (repo data) P \<and> pack_checksum_matches (repo data) P
             \<and> pack_offsets_in_range (repo data) P)"
    by (rule fsck_pack_file_ok)
next
  fix P sz actual
  assume "pack_index_valid (repo data) P \<and> pack_data_size (repo data) P = Some sz
            \<and> pack_content_checksum (repo data) P = Some actual \<and> actual \<noteq> P"
  then show "fsck_pack_file (repo data) P = Inl (Corrupted_pack_checksum P actual)"
    by (simp add: fsck_pack_file_checksum_error)
next
  fix P offsets sz bad
  assume "pack_index_valid (repo data) P \<and> pack_checksum_matches (repo data) P
            \<and> pack_declared_offsets (repo data) P = Some offsets
            \<and> pack_data_size (repo data) P = Some sz
            \<and> find (\<lambda>offset. offset > sz) offsets = Some bad"
  then show "fsck_pack_file (repo data) P = Inl (Corrupted_pack_offset P bad sz)"
    by (simp add: fsck_pack_file_offset_error)
qed

text \<open>C1 as it was stated fails: in the repository whose index has a wrong header,
  (a) and (b) hold of the one listed pack and \<^verbatim>\<open>fsck_pack_files\<close> returns FALSE, with the
  error of the structural validation.\<close>

theorem pack_verification_counterexample:
  "ostree_repo_list_pack_indexes bad_header_repo = Inr [''p1'']
   \<and> pack_checksum_matches bad_header_repo ''p1''
   \<and> pack_offsets_in_range bad_header_repo ''p1''
   \<and> snd (fsck_pack_files \<lparr>repo = bad_header_repo, n_pack_files = 0\<rparr>)
       = Ret_FALSE (Callee_error ''invalid pack index header'')"
  by (simp add: bad_header_repo_def example_defs pack_checksum_matches_def pack_content_checksum_def
        pack_offsets_in_range_def pack_declared_offsets_def pack_data_size_def GUINT64_FROM_BE_def
        fsck_pack_files_def fsck_pack_files_out_def fsck_pack_file_def fsck_pack_iteration_def)

theorem pack_verification_witness:
  "ostree_repo_list_pack_indexes (repo \<lparr>repo = example_repo, n_pack_files = 0\<rparr>) = Inr [''p1'']
   \<and> snd (fsck_pack_files \<lparr>repo = example_repo, n_pack_files = 0\<rparr>) = Ret_TRUE
   \<and> ostree_repo_list_pack_indexes (repo \<lparr>repo = bad_offset_repo, n_pack_files = 0\<rparr>) = Inr [''p1'']
   \<and> fsck_pack_file bad_offset_repo ''p1'' = Inl (Corrupted_pack_offset ''p1'' 4 3)"
proof -
  let ?d = "\<lparr>repo = example_repo, n_pack_files = 0\<rparr>"
  let ?b = "\<lparr>repo = bad_offset_repo, n_pack_files = 0\<rparr>"
  have l: "ostree_repo_list_pack_indexes (repo ?d) = Inr [''p1'']"
    by (simp add: example_defs)
  have v: "pack_index_valid example_repo ''p1''"
    by (simp add: pack_index_valid_def example_defs)
  have a: "pack_checksum_matches example_repo ''p1''"
    by (simp add: pack_checksum_matches_def pack_content_checksum_def example_defs)
  have b: "pack_offsets_in_range example_repo ''p1''"
    by (simp add: pack_offsets_in_range_def pack_declared_offsets_def pack_data_size_def
          GUINT64_FROM_BE_def example_defs)
  have ok: "snd (fsck_pack_files ?d) = Ret_TRUE"
    using pack_verification[OF l] v a b by simp
  have l': "ostree_repo_list_pack_indexes (repo ?b) = Inr [''p1'']"
    by (simp add: bad_offset_repo_def example_defs)
  have v': "pack_index_valid bad_offset_repo ''p1''"
    by (simp add: pack_index_valid_def bad_offset_repo_def example_defs)
  have a': "pack_checksum_matches bad_offset_repo ''p1''"
    by (simp add: pack_checksum_matches_def pack_content_checksum_def bad_offset_repo_def example_defs)
  have o': "pack_declared_offsets bad_offset_repo ''p1'' = Some [2, 4]"
    by (simp add: pack_declared_offsets_def GUINT64_FROM_BE_def bad_offset_repo_def example_defs)
  have s': "pack_data_size bad_offset_repo ''p1'' = Some 3"
    by (simp add: pack_data_size_def bad_offset_repo_def example_defs)
  have f': "find (\<lambda>offset. offset > 3) [2, 4 :: 64 word] = Some 4"
    by simp
  have bad: "fsck_pack_file bad_offset_repo ''p1'' = Inl (Corrupted_pack_offset ''p1'' 4 3)"
    using pack_verification[OF l'] v' a' o' s' f' by simp
  show ?thesis using l ok l' bad by simp
qed

text \<open>C2, as amended. \<^verbatim>\<open>ostree_builtin_fsck\<close> returns TRUE if and only if the options
  parse, the repository opens, the enumeration succeeds, \<^verbatim>\<open>ostree_traverse_commit\<close> run on
  each enumerated commit in turn into one table succeeds, every object of that table whose
  type is not ArchivedFileContent is loaded, structurally validated, digested, and found to
  have the checksum of its name, and the pack files verify. So a run that returns TRUE has
  checked every object that the enumerated commits reach, archived file content apart; and
  whether an enumerated object outside that table, or an ArchivedFileContent object, loads
  or matches its name has no part in the result: those objects are not checked.\<close>

theorem success_means_reachable_checked:
  "(snd (ostree_builtin_fsck argv p0) = Ret_TRUE) =
     (\<exists>p1 objects reachable.
         g_option_context_parse options argv p0 = Inr p1
       \<and> ostree_repo_check (store p0) = Inr ()
       \<and> ostree_repo_list_objects (store p0) = Inr objects
       \<and> reachable_from_commits (store p0) (enumerated_commits objects) = Some reachable
       \<and> (\<forall>k\<in>set reachable. snd k \<noteq> OSTREE_OBJECT_TYPE_ARCHIVED_FILE_CONTENT
              \<longrightarrow> object_checked (store p0) k)
       \<and> snd (fsck_pack_files \<lparr>repo = store p0, n_pack_files = 0\<rparr>) = Ret_TRUE)"
proof
  assume "snd (ostree_builtin_fsck argv p0) = Ret_TRUE"
  from builtin_success[OF this] obtain p1 objects where
    p: "g_option_context_parse options argv p0 = Inr p1"
    and c: "ostree_repo_check (store p1) = Inr ()"
    and l: "ostree_repo_list_objects (store p1) = Inr objects"
    and f: "fsck_reachable_objects_from_commits \<lparr>repo = store p1, n_pack_files = 0\<rparr>
                (partition_commits objects []) = Ret_TRUE"
    and k: "snd (fsck_pack_files \<lparr>repo = store p1, n_pack_files = 0\<rparr>) = Ret_TRUE"
    by blast
  from p have s: "store p1 = store p0" by (simp add: g_option_context_parse_keeps)
  from f obtain reachable where
    "reachable_from_commits (store p0) (enumerated_commits objects) = Some reachable"
    "\<forall>k\<in>set reachable. snd k \<noteq> OSTREE_OBJECT_TYPE_ARCHIVED_FILE_CONTENT
       \<longrightarrow> object_checked (store p0) k"
    unfolding fsck_reachable_enumerated s by auto
  with p c l k s show "\<exists>p1 objects reachable.
         g_option_context_parse options argv p0 = Inr p1
       \<and> ostree_repo_check (store p0) = Inr ()
       \<and> ostree_repo_list_objects (store p0) = Inr objects
       \<and> reachable_from_commits (store p0) (enumerated_commits objects) = Some reachable
       \<and> (\<forall>k\<in>set reachable. snd k \<noteq> OSTREE_OBJECT_TYPE_ARCHIVED_FILE_CONTENT
              \<longrightarrow> object_checked (store p0) k)
       \<and> snd (fsck_pack_files \<lparr>repo = store p0, n_pack_files = 0\<rparr>) = Ret_TRUE"
    by auto
next
  assume "\<exists>p1 objects reachable.
         g_option_context_parse options argv p0 = Inr p1
       \<and> ostree_repo_check (store p0) = Inr ()
       \<and> ostree_repo_list_objects (store p0) = Inr objects
       \<and> reachable_from_commits (store p0) (enumerated_commits objects) = Some reachable
       \<and> (\<forall>k\<in>set reachable. snd k \<noteq> OSTREE_OBJECT_TYPE_ARCHIVED_FILE_CONTENT
              \<longrightarrow> object_checked (store p0) k)
       \<and> snd (fsck_pack_files \<lparr>repo = store p0, n_pack_files = 0\<rparr>) = Ret_TRUE"
  then obtain p1 objects reachable where
    p: "g_option_context_parse options argv p0 = Inr p1"
    and c: "ostree_repo_check (store p0) = Inr ()"
    and l: "ostree_repo_list_objects (store p0) = Inr objects"
    and t: "reachable_from_commits (store p0) (enumerated_commits objects) = Some reachable"
    and v: "\<forall>k\<in>set reachable. snd k \<noteq> OSTREE_OBJECT_TYPE_ARCHIVED_FILE_CONTENT
              \<longrightarrow> object_checked (store p0) k"
    and k: "snd (fsck_pack_files \<lparr>repo = store p0, n_pack_files = 0\<rparr>) = Ret_TRUE"
    by blast
  from p have s: "store p1 = store p0" by (simp add: g_option_context_parse_keeps)
  have c': "ostree_repo_check (store p1) = Inr ()" using c s by simp
  have f: "fsck_reachable_objects_from_commits \<lparr>repo = store p0, n_pack_files = 0\<rparr>
             (partition_commits objects []) = Ret_TRUE"
    unfolding fsck_reachable_enumerated using t v by auto
  show "snd (ostree_builtin_fsck argv p0) = Ret_TRUE"
    unfolding builtin_after_parse[OF p c'] s using l f k by (simp add: Let_def)
qed

text \<open>C2 as it was stated fails: \<open>f2\<close> is enumerated, no commit reaches it, it cannot
  even be loaded, and the run returns TRUE.\<close>

theorem success_means_reachable_checked_counterexample:
  "snd (ostree_builtin_fsck [''fsck''] (example_process orphan_repo)) = Ret_TRUE
   \<and> ostree_repo_list_objects orphan_repo
       = Inr (example_objects @ [(''f2'', OSTREE_OBJECT_TYPE_RAW_FILE)])
   \<and> ostree_repo_load_file orphan_repo ''f2'' = Inl (Callee_error ''no such file'')
   \<and> \<not> object_checked orphan_repo (''f2'', OSTREE_OBJECT_TYPE_RAW_FILE)"
  by (simp add: orphan_repo_def example_defs run_defs object_checked_def file_checksum_def)

text \<open>Two runs that return TRUE. In the small repository the table is the four objects
  and each of them is checked. In the repository with the archived content object \<open>a1\<close>,
  which is reached and cannot be loaded, everything the right-hand side asks for holds, and
  so the run returns TRUE although \<open>a1\<close> is not checked.\<close>

theorem success_means_reachable_checked_witness:
  "snd (ostree_builtin_fsck [''fsck''] (example_process example_repo)) = Ret_TRUE
   \<and> reachable_from_commits example_repo (enumerated_commits example_objects) = Some example_objects
   \<and> object_checked example_repo (''c1'', OSTREE_OBJECT_TYPE_COMMIT)
   \<and> object_checked example_repo (''m1'', OSTREE_OBJECT_TYPE_DIR_META)
   \<and> object_checked example_repo (''t1'', OSTREE_OBJECT_TYPE_DIR_TREE)
   \<and> object_checked example_repo (''f1'', OSTREE_OBJECT_TYPE_RAW_FILE)
   \<and> reachable_from_commits archived_repo
        (enumerated_commits (example_objects @ [(''a1'', OSTREE_OBJECT_TYPE_ARCHIVED_FILE_CONTENT)]))
       = Some (example_objects @ [(''a1'', OSTREE_OBJECT_TYPE_ARCHIVED_FILE_CONTENT)])
   \<and> ostree_repo_load_file archived_repo ''a1'' = Inl (Callee_error ''no such file'')
   \<and> \<not> object_checked archived_repo (''a1'', OSTREE_OBJECT_TYPE_ARCHIVED_FILE_CONTENT)
   \<and> snd (ostree_builtin_fsck [''fsck''] (example_process archived_repo)) = Ret_TRUE"
proof -
  let ?p = "example_process example_repo"
  let ?q = "example_process archived_repo"
  let ?a1 = "(''a1'', OSTREE_OBJECT_TYPE_ARCHIVED_FILE_CONTENT)"
  have commits: "enumerated_commits example_objects = [(''c1'', OSTREE_OBJECT_TYPE_COMMIT)]"
    by (simp add: enumerated_commits_def example_objects_def)
  have commits': "enumerated_commits (example_objects @ [?a1]) = [(''c1'', OSTREE_OBJECT_TYPE_COMMIT)]"
    by (simp add: enumerated_commits_def example_objects_def)
  have ok: "snd (ostree_builtin_fsck [''fsck''] ?p) = Ret_TRUE"
    by (simp add: example_defs run_defs)
  have s: "store ?p = example_repo"
    by (simp add: example_process_def)
  have l: "ostree_repo_list_objects example_repo = Inr example_objects"
    by (simp add: example_repo_def)
  have t: "reachable_from_commits example_repo (enumerated_commits example_objects)
             = Some example_objects"
    unfolding commits
    by (simp add: reachable_from_commits_def traverse_next_Some example_defs g_hash_table_insert_def)
  from success_means_reachable_checked[of "[''fsck'']" ?p, THEN iffD1, OF ok]
  have "\<forall>k\<in>set example_objects. snd k \<noteq> OSTREE_OBJECT_TYPE_ARCHIVED_FILE_CONTENT
          \<longrightarrow> object_checked example_repo k"
    unfolding s using l t by auto
  then have checked:
    "object_checked example_repo (''c1'', OSTREE_OBJECT_TYPE_COMMIT)
     \<and> object_checked example_repo (''m1'', OSTREE_OBJECT_TYPE_DIR_META)
     \<and> object_checked example_repo (''t1'', OSTREE_OBJECT_TYPE_DIR_TREE)
     \<and> object_checked example_repo (''f1'', OSTREE_OBJECT_TYPE_RAW_FILE)"
    by (simp add: example_objects_def)
  have s': "store ?q = archived_repo"
    by (simp add: example_process_def)
  have p': "g_option_context_parse options [''fsck''] ?q = Inr ?q"
    by (simp add: g_option_context_parse_def)
  have c': "ostree_repo_check archived_repo = Inr ()"
    by (simp add: archived_repo_def example_repo_def)
  have l': "ostree_repo_list_objects archived_repo = Inr (example_objects @ [?a1])"
    by (simp add: archived_repo_def)
  have t': "reachable_from_commits archived_repo (enumerated_commits (example_objects @ [?a1]))
              = Some (example_objects @ [?a1])"
    unfolding commits'
    by (simp add: reachable_from_commits_def traverse_next_Some archived_repo_def example_defs
          g_hash_table_insert_def)
  have v': "\<forall>k\<in>set (example_objects @ [?a1]). snd k \<noteq> OSTREE_OBJECT_TYPE_ARCHIVED_FILE_CONTENT
              \<longrightarrow> object_checked archived_repo k"
    by (simp add: object_checked_def metadata_checksum_def file_checksum_def archived_repo_def
          example_defs)
  have k': "snd (fsck_pack_files \<lparr>repo = archived_repo, n_pack_files = 0\<rparr>) = Ret_TRUE"
    by (simp add: archived_repo_def example_defs run_defs)
  have missing: "ostree_repo_load_file archived_repo ''a1'' = Inl (Callee_error ''no such file'')"
    by (simp add: archived_repo_def example_repo_def)
  have not_checked: "\<not> object_checked archived_repo ?a1"
    by (simp add: object_checked_def)
  have ok': "snd (ostree_builtin_fsck [''fsck''] ?q) = Ret_TRUE"
    using success_means_reachable_checked[of "[''fsck'']" ?q, THEN iffD2] p' c' l' t' v' k'
    unfolding s' by blast
  show ?thesis
    using ok t checked t' missing not_checked ok' by simp
qed

text \<open>C3. The claim: with \<^verbatim>\<open>--delete\<close> a corrupted object is removed from the store after
  it has been reported, so that a later enumeration no longer includes it. The option table
  documents the flag as "Remove corrupted objects", and the parser sets it; no statement of
  the file reads it. Here the run over the repository whose file \<open>f1\<close> was changed, with
  \<^verbatim>\<open>--delete\<close>: the flag is set, the corruption of \<open>f1\<close> is reported, the store is the one
  the run started with and its enumeration still includes \<open>f1\<close>.\<close>

theorem delete_flag_ignored:
  "ostree_builtin_fsck [''fsck'', ''--delete''] (example_process corrupted_repo) =
     (\<lparr>quiet = False, delete = True,
       stdout = [''Enumerating objects...'' @ [CHR 0x0A],
                 ''Verifying content integrity of 1 commit objects...'' @ [CHR 0x0A]],
       store = corrupted_repo\<rparr>,
      Ret_FALSE (Corrupted_object ''f1'' OSTREE_OBJECT_TYPE_RAW_FILE ''00''))
   \<and> ostree_repo_list_objects corrupted_repo = Inr example_objects
   \<and> (''f1'', OSTREE_OBJECT_TYPE_RAW_FILE) \<in> set example_objects"
  by (simp add: corrupted_repo_def example_defs run_defs)

text \<open>C4, as amended. The loop over the reachable objects stops at the first object, in
  the iteration order of the table, that does not pass. If that object loads, is
  structurally valid and its recomputed checksum differs from the checksum of its name,
  \<^verbatim>\<open>fsck_reachable_objects_from_commits\<close> returns FALSE with an error that carries the
  claimed checksum, the claimed object type and the computed checksum; if it fails to load,
  to validate or to be digested, the function returns FALSE with that error instead. Either
  way no later object is verified: the result is the one of the loop stopped at that
  object, so a corrupted object that comes after it is not reported.\<close>

theorem first_mismatch_halts:
  assumes reach: "traverse_commits (repo data) commits ostree_traverse_new_reachable
                    = (pre @ (checksum, objtype) # post, Ret_TRUE)"
    and before: "\<forall>k\<in>set pre. verify_object (repo data) k = Ret_TRUE"
  shows "(\<forall>computed. recomputed_checksum (repo data) (checksum, objtype) = Some computed
              \<and> computed \<noteq> checksum \<longrightarrow>
            fsck_reachable_objects_from_commits data commits
              = Ret_FALSE (Corrupted_object checksum objtype computed))
       \<and> (\<forall>e. verify_object (repo data) (checksum, objtype) = Ret_FALSE e \<longrightarrow>
            fsck_reachable_objects_from_commits data commits = Ret_FALSE e)
       \<and> (verify_object (repo data) (checksum, objtype) \<noteq> Ret_TRUE \<longrightarrow>
            verify_objects (repo data) (pre @ (checksum, objtype) # post)
              = verify_objects (repo data) (pre @ [(checksum, objtype)]))"
proof (intro conjI allI impI)
  have stop: "verify_objects (repo data) (pre @ (checksum, objtype) # post) = Ret_FALSE e"
    if "verify_object (repo data) (checksum, objtype) = Ret_FALSE e" for e post
    using before that by (rule verify_objects_first_failure)
  have run: "fsck_reachable_objects_from_commits data commits
               = verify_objects (repo data) (pre @ (checksum, objtype) # post)"
    using reach by (simp add: fsck_reachable_objects_from_commits_def Let_def)
  {
    fix computed
    assume "recomputed_checksum (repo data) (checksum, objtype) = Some computed
              \<and> computed \<noteq> checksum"
    then have "verify_object (repo data) (checksum, objtype)
                 = Ret_FALSE (Corrupted_object checksum objtype computed)"
      by (simp add: verify_object_mismatch)
    then show "fsck_reachable_objects_from_commits data commits
                 = Ret_FALSE (Corrupted_object checksum objtype computed)"
      unfolding run by (rule stop)
  next
    fix e
    assume "verify_object (repo data) (checksum, objtype) = Ret_FALSE e"
    then show "fsck_reachable_objects_from_commits data commits = Ret_FALSE e"
      unfolding run by (rule stop)
  next
    assume "verify_object (repo data) (checksum, objtype) \<noteq> Ret_TRUE"
    then obtain e where "verify_object (repo data) (checksum, objtype) = Ret_FALSE e"
      using verify_object_returns[of "repo data" "(checksum, objtype)"] by auto
    then show "verify_objects (repo data) (pre @ (checksum, objtype) # post)
                 = verify_objects (repo data) (pre @ [(checksum, objtype)])"
      by (simp add: stop)
  }
qed

text \<open>C4 as it was stated fails: \<open>f1\<close> is reachable and its recomputed checksum differs
  from its name, but the file \<open>zz\<close>, which comes first in the table, cannot be loaded; the
  error raised is the one of the load, and it names neither \<open>f1\<close> nor its checksums.\<close>

theorem first_mismatch_halts_counterexample:
  "traverse_commits missing_file_repo [(''c1'', OSTREE_OBJECT_TYPE_COMMIT)]
       ostree_traverse_new_reachable
     = ((''zz'', OSTREE_OBJECT_TYPE_RAW_FILE) # example_objects, Ret_TRUE)
   \<and> (''f1'', OSTREE_OBJECT_TYPE_RAW_FILE) \<in> set example_objects
   \<and> recomputed_checksum missing_file_repo (''f1'', OSTREE_OBJECT_TYPE_RAW_FILE) = Some ''00''
   \<and> fsck_reachable_objects_from_commits \<lparr>repo = missing_file_repo, n_pack_files = 0\<rparr>
        [(''c1'', OSTREE_OBJECT_TYPE_COMMIT)]
       = Ret_FALSE (Callee_error ''no such file'')"
  by (simp add: missing_file_repo_def corrupted_repo_def file_checksum_def example_defs run_defs)

text \<open>The theorem where objects are left when the loop stops: the directory metadata
  \<open>m1\<close> is the first object that does not pass, the tree \<open>t1\<close> and the file \<open>f1\<close>, itself
  corrupted, come after it, and the error names \<open>m1\<close>.\<close>

theorem first_mismatch_halts_witness:
  "traverse_commits (repo \<lparr>repo = corrupted_meta_repo, n_pack_files = 0\<rparr>)
       [(''c1'', OSTREE_OBJECT_TYPE_COMMIT)] ostree_traverse_new_reachable
     = ([(''c1'', OSTREE_OBJECT_TYPE_COMMIT)] @ (''m1'', OSTREE_OBJECT_TYPE_DIR_META)
          # [(''t1'', OSTREE_OBJECT_TYPE_DIR_TREE), (''f1'', OSTREE_OBJECT_TYPE_RAW_FILE)], Ret_TRUE)
   \<and> verify_object corrupted_meta_repo (''c1'', OSTREE_OBJECT_TYPE_COMMIT) = Ret_TRUE
   \<and> recomputed_checksum corrupted_meta_repo (''m1'', OSTREE_OBJECT_TYPE_DIR_META) = Some ''00''
   \<and> recomputed_checksum corrupted_meta_repo (''f1'', OSTREE_OBJECT_TYPE_RAW_FILE) = Some ''00''
   \<and> fsck_reachable_objects_from_commits \<lparr>repo = corrupted_meta_repo, n_pack_files = 0\<rparr>
        [(''c1'', OSTREE_OBJECT_TYPE_COMMIT)]
       = Ret_FALSE (Corrupted_object ''m1'' OSTREE_OBJECT_TYPE_DIR_META ''00'')"
proof -
  let ?d = "\<lparr>repo = corrupted_meta_repo, n_pack_files = 0\<rparr>"
  let ?pre = "[(''c1'', OSTREE_OBJECT_TYPE_COMMIT)]"
  let ?post = "[(''t1'', OSTREE_OBJECT_TYPE_DIR_TREE), (''f1'', OSTREE_OBJECT_TYPE_RAW_FILE)]"
  have reach: "traverse_commits (repo ?d) [(''c1'', OSTREE_OBJECT_TYPE_COMMIT)]
                 ostree_traverse_new_reachable
               = (?pre @ (''m1'', OSTREE_OBJECT_TYPE_DIR_META) # ?post, Ret_TRUE)"
    by (simp add: corrupted_meta_repo_def corrupted_repo_def example_defs run_defs)
  have first: "verify_object corrupted_meta_repo (''c1'', OSTREE_OBJECT_TYPE_COMMIT) = Ret_TRUE"
    by (simp add: corrupted_meta_repo_def corrupted_repo_def example_defs run_defs)
  then have before: "\<forall>k\<in>set ?pre. verify_object (repo ?d) k = Ret_TRUE"
    by simp
  have m: "recomputed_checksum (repo ?d) (''m1'', OSTREE_OBJECT_TYPE_DIR_META) = Some ''00''"
    by (simp add: metadata_checksum_def corrupted_meta_repo_def corrupted_repo_def example_defs)
  have f: "recomputed_checksum corrupted_meta_repo (''f1'', OSTREE_OBJECT_TYPE_RAW_FILE) = Some ''00''"
    by (simp add: file_checksum_def corrupted_meta_repo_def corrupted_repo_def example_defs)
  have differs: "''00'' \<noteq> ''m1''" by simp
  have "fsck_reachable_objects_from_commits ?d [(''c1'', OSTREE_OBJECT_TYPE_COMMIT)]
          = Ret_FALSE (Corrupted_object ''m1'' OSTREE_OBJECT_TYPE_DIR_META ''00'')"
    using first_mismatch_halts[OF reach before] m differs by blast
  then show ?thesis
    using reach first m f by simp
qed

text \<open>C5. Once the options are parsed and the repository is opened, the run goes through
  its phases in order and stops at the first that fails: if the enumeration fails, only its
  status line was printed and its error is returned; if content verification does not
  return TRUE, the first two status lines were printed, the line of the pack phase was
  not, and the result is the one of content verification; only when content verification
  returned TRUE is the third line printed and the result that of \<^verbatim>\<open>fsck_pack_files\<close>.
  A run that returns TRUE has therefore passed all of them.\<close>

theorem phases_run_in_order:
  assumes parsed: "g_option_context_parse options argv p0 = Inr p1"
    and opened: "ostree_repo_check (store p1) = Inr ()"
  shows "(\<forall>e. ostree_repo_list_objects (store p1) = Inl e \<longrightarrow>
            ostree_builtin_fsck argv p0 = (p1\<lparr>stdout := stdout p1 @ [msg_enumerating]\<rparr>, Ret_FALSE e))
       \<and> (\<forall>objects. ostree_repo_list_objects (store p1) = Inr objects \<longrightarrow>
            (fsck_reachable_objects_from_commits \<lparr>repo = store p1, n_pack_files = 0\<rparr>
                 (partition_commits objects []) \<noteq> Ret_TRUE \<longrightarrow>
               ostree_builtin_fsck argv p0 =
                 (p1\<lparr>stdout := stdout p1 @
                      [msg_enumerating,
                       msg_verifying_content (word_of_nat (length (partition_commits objects [])))]\<rparr>,
                  fsck_reachable_objects_from_commits \<lparr>repo = store p1, n_pack_files = 0\<rparr>
                    (partition_commits objects [])))
          \<and> (fsck_reachable_objects_from_commits \<lparr>repo = store p1, n_pack_files = 0\<rparr>
                 (partition_commits objects []) = Ret_TRUE \<longrightarrow>
               ostree_builtin_fsck argv p0 =
                 (p1\<lparr>stdout := stdout p1 @
                      [msg_enumerating,
                       msg_verifying_content (word_of_nat (length (partition_commits objects []))),
                       msg_verifying_packs]\<rparr>,
                  snd (fsck_pack_files \<lparr>repo = store p1, n_pack_files = 0\<rparr>))))
       \<and> (snd (ostree_builtin_fsck argv p0) = Ret_TRUE \<longrightarrow>
            (\<exists>objects. ostree_repo_list_objects (store p1) = Inr objects
               \<and> fsck_reachable_objects_from_commits \<lparr>repo = store p1, n_pack_files = 0\<rparr>
                    (partition_commits objects []) = Ret_TRUE
               \<and> snd (fsck_pack_files \<lparr>repo = store p1, n_pack_files = 0\<rparr>) = Ret_TRUE))"
proof (intro conjI allI impI)
  fix e
  assume "ostree_repo_list_objects (store p1) = Inl e"
  then show "ostree_builtin_fsck argv p0 = (p1\<lparr>stdout := stdout p1 @ [msg_enumerating]\<rparr>, Ret_FALSE e)"
    by (simp add: builtin_after_parse[OF parsed opened] g_print_def)
next
  fix objects
  assume l: "ostree_repo_list_objects (store p1) = Inr objects"
    and f: "fsck_reachable_objects_from_commits \<lparr>repo = store p1, n_pack_files = 0\<rparr>
                 (partition_commits objects []) \<noteq> Ret_TRUE"
  then show "ostree_builtin_fsck argv p0 =
                 (p1\<lparr>stdout := stdout p1 @
                      [msg_enumerating,
                       msg_verifying_content (word_of_nat (length (partition_commits objects [])))]\<rparr>,
                  fsck_reachable_objects_from_commits \<lparr>repo = store p1, n_pack_files = 0\<rparr>
                    (partition_commits objects []))"
    by (simp add: builtin_after_parse[OF parsed opened] g_print_def g_hash_table_size_def Let_def
          split: outcome.split)
next
  fix objects
  assume l: "ostree_repo_list_objects (store p1) = Inr objects"
    and f: "fsck_reachable_objects_from_commits \<lparr>repo = store p1, n_pack_files = 0\<rparr>
                 (partition_commits objects []) = Ret_TRUE"
  then show "ostree_builtin_fsck argv p0 =
                 (p1\<lparr>stdout := stdout p1 @
                      [msg_enumerating,
                       msg_verifying_content (word_of_nat (length (partition_commits objects []))),
                       msg_verifying_packs]\<rparr>,
                  snd (fsck_pack_files \<lparr>repo = store p1, n_pack_files = 0\<rparr>))"
    by (simp add: builtin_after_parse[OF parsed opened] g_print_def g_hash_table_size_def Let_def)
next
  assume "snd (ostree_builtin_fsck argv p0) = Ret_TRUE"
  from builtin_success[OF this] parsed
  show "\<exists>objects. ostree_repo_list_objects (store p1) = Inr objects
               \<and> fsck_reachable_objects_from_commits \<lparr>repo = store p1, n_pack_files = 0\<rparr>
                    (partition_commits objects []) = Ret_TRUE
               \<and> snd (fsck_pack_files \<lparr>repo = store p1, n_pack_files = 0\<rparr>) = Ret_TRUE"
    by auto
qed

theorem phases_run_in_order_witness:
  "g_option_context_parse options [''fsck''] (example_process corrupted_repo)
     = Inr (example_process corrupted_repo)
   \<and> ostree_repo_check (store (example_process corrupted_repo)) = Inr ()
   \<and> ostree_repo_list_objects (store (example_process corrupted_repo)) = Inr example_objects
   \<and> stdout (fst (ostree_builtin_fsck [''fsck''] (example_process corrupted_repo)))
       = [msg_enumerating, msg_verifying_content 1]
   \<and> snd (ostree_builtin_fsck [''fsck''] (example_process corrupted_repo))
       = Ret_FALSE (Corrupted_object ''f1'' OSTREE_OBJECT_TYPE_RAW_FILE ''00'')"
proof -
  let ?p = "example_process corrupted_repo"
  have parsed: "g_option_context_parse options [''fsck''] ?p = Inr ?p"
    by (simp add: g_option_context_parse_def)
  have opened: "ostree_repo_check (store ?p) = Inr ()"
    by (simp add: corrupted_repo_def example_defs)
  have listed: "ostree_repo_list_objects (store ?p) = Inr example_objects"
    by (simp add: corrupted_repo_def example_repo_def example_process_def)
  have commits: "partition_commits example_objects [] = [(''c1'', OSTREE_OBJECT_TYPE_COMMIT)]"
    by (simp add: example_objects_def g_hash_table_insert_def ostree_object_name_deserialize_def)
  have failed: "fsck_reachable_objects_from_commits \<lparr>repo = store ?p, n_pack_files = 0\<rparr>
                  (partition_commits example_objects [])
                = Ret_FALSE (Corrupted_object ''f1'' OSTREE_OBJECT_TYPE_RAW_FILE ''00'')"
    unfolding commits by (simp add: corrupted_repo_def example_defs run_defs)
  show ?thesis
    using phases_run_in_order[OF parsed opened] parsed opened listed failed commits
    by (simp add: example_process_def)
qed

text \<open>C6. An object of type ArchivedFileContent passes the loop body without any load or
  digest, whatever the repository holds. Objects of type RawFile and ArchivedFileMeta are
  both loaded with \<^verbatim>\<open>ostree_repo_load_file\<close>, have their mode validated, and are digested
  with the object type overridden to RawFile; only the type named in the error differs, so
  the one passes exactly when the other does.\<close>

theorem file_objects_share_checksum_domain:
  "verify_object r (c, OSTREE_OBJECT_TYPE_ARCHIVED_FILE_CONTENT) = Ret_TRUE
   \<and> verify_object r (c, OSTREE_OBJECT_TYPE_RAW_FILE) =
       (case ostree_repo_load_file r c of
          Inl e \<Rightarrow> Ret_FALSE e
        | Inr (input, file_info, xattrs) \<Rightarrow>
            (case ostree_validate_structureof_file_mode r (unix_mode file_info) of
               Inl e \<Rightarrow> Ret_FALSE e
             | Inr u \<Rightarrow>
                 (case ostree_checksum_file_from_input r (Some file_info) (Some xattrs) input
                         OSTREE_OBJECT_TYPE_RAW_FILE of
                    Inl e \<Rightarrow> Ret_FALSE e
                  | Inr computed \<Rightarrow>
                      if c \<noteq> computed
                      then Ret_FALSE (Corrupted_object c OSTREE_OBJECT_TYPE_RAW_FILE computed)
                      else Ret_TRUE)))
   \<and> verify_object r (c, OSTREE_OBJECT_TYPE_ARCHIVED_FILE_META) =
       (case ostree_repo_load_file r c of
          Inl e \<Rightarrow> Ret_FALSE e
        | Inr (input, file_info, xattrs) \<Rightarrow>
            (case ostree_validate_structureof_file_mode r (unix_mode file_info) of
               Inl e \<Rightarrow> Ret_FALSE e
             | Inr u \<Rightarrow>
                 (case ostree_checksum_file_from_input r (Some file_info) (Some xattrs) input
                         OSTREE_OBJECT_TYPE_RAW_FILE of
                    Inl e \<Rightarrow> Ret_FALSE e
                  | Inr computed \<Rightarrow>
                      if c \<noteq> computed
                      then Ret_FALSE (Corrupted_object c OSTREE_OBJECT_TYPE_ARCHIVED_FILE_META computed)
                      else Ret_TRUE)))
   \<and> (verify_object r (c, OSTREE_OBJECT_TYPE_ARCHIVED_FILE_META) = Ret_TRUE)
       = (verify_object r (c, OSTREE_OBJECT_TYPE_RAW_FILE) = Ret_TRUE)"
proof -
  have skipped: "verify_object r (c, OSTREE_OBJECT_TYPE_ARCHIVED_FILE_CONTENT) = Ret_TRUE"
    by (rule verify_object_archived_content)
  have raw: "verify_object r (c, OSTREE_OBJECT_TYPE_RAW_FILE) =
       (case ostree_repo_load_file r c of
          Inl e \<Rightarrow> Ret_FALSE e
        | Inr (input, file_info, xattrs) \<Rightarrow>
            (case ostree_validate_structureof_file_mode r (unix_mode file_info) of
               Inl e \<Rightarrow> Ret_FALSE e
             | Inr u \<Rightarrow>
                 (case ostree_checksum_file_from_input r (Some file_info) (Some xattrs) input
                         OSTREE_OBJECT_TYPE_RAW_FILE of
                    Inl e \<Rightarrow> Ret_FALSE e
                  | Inr computed \<Rightarrow>
                      if c \<noteq> computed
                      then Ret_FALSE (Corrupted_object c OSTREE_OBJECT_TYPE_RAW_FILE computed)
                      else Ret_TRUE)))"
    by (simp add: verify_object_raw_file compare_checksum_eq split: sum.split prod.split)
  have meta: "verify_object r (c, OSTREE_OBJECT_TYPE_ARCHIVED_FILE_META) =
       (case ostree_repo_load_file r c of
          Inl e \<Rightarrow> Ret_FALSE e
        | Inr (input, file_info, xattrs) \<Rightarrow>
            (case ostree_validate_structureof_file_mode r (unix_mode file_info) of
               Inl e \<Rightarrow> Ret_FALSE e
             | Inr u \<Rightarrow>
                 (case ostree_checksum_file_from_input r (Some file_info) (Some xattrs) input
                         OSTREE_OBJECT_TYPE_RAW_FILE of
                    Inl e \<Rightarrow> Ret_FALSE e
                  | Inr computed \<Rightarrow>
                      if c \<noteq> computed
                      then Ret_FALSE (Corrupted_object c OSTREE_OBJECT_TYPE_ARCHIVED_FILE_META computed)
                      else Ret_TRUE)))"
    by (simp add: verify_object_archived_meta compare_checksum_eq split: sum.split prod.split)
  have same: "(verify_object r (c, OSTREE_OBJECT_TYPE_ARCHIVED_FILE_META) = Ret_TRUE)
                = (verify_object r (c, OSTREE_OBJECT_TYPE_RAW_FILE) = Ret_TRUE)"
    by (simp add: verify_object_ok object_checked_def)
  from skipped raw meta same show ?thesis by (intro conjI)
qed

theorem file_objects_share_checksum_domain_witness:
  "verify_object corrupted_repo (''f1'', OSTREE_OBJECT_TYPE_ARCHIVED_FILE_META)
     = Ret_FALSE (Corrupted_object ''f1'' OSTREE_OBJECT_TYPE_ARCHIVED_FILE_META ''00'')
   \<and> verify_object corrupted_repo (''f1'', OSTREE_OBJECT_TYPE_RAW_FILE)
     = Ret_FALSE (Corrupted_object ''f1'' OSTREE_OBJECT_TYPE_RAW_FILE ''00'')
   \<and> verify_object corrupted_repo (''f1'', OSTREE_OBJECT_TYPE_ARCHIVED_FILE_CONTENT) = Ret_TRUE"
  using file_objects_share_checksum_domain[of corrupted_repo "''f1''"]
  by (simp add: corrupted_repo_def example_defs)

text \<open>C7. Traversing the same commit a second time into the accumulator left by the first
  traversal adds no entry: the accumulator after the second run is the accumulator after
  the first, whether the first run succeeded or stopped at an error.\<close>

theorem traverse_commit_idempotent:
  "fst (traverse_commit S c flags (fst (traverse_commit S c flags accumulator)))
     = fst (traverse_commit S c flags accumulator)"
proof -
  let ?n = "(c, OSTREE_OBJECT_TYPE_COMMIT)"
  show ?thesis
  proof (cases "?n \<in> set accumulator")
    case True
    then show ?thesis by (simp add: traverse_commit_def)
  next
    case False
    show ?thesis
    proof (cases "map_of (stored S) ?n")
      case None
      with False show ?thesis by (simp add: traverse_commit_def)
    next
      case (Some obj)
      show ?thesis
      proof (cases "well_formed S OSTREE_OBJECT_TYPE_COMMIT obj")
        case wf: False
        with False Some show ?thesis by (simp add: traverse_commit_def)
      next
        case wf: True
        let ?first = "traverse_pending S (links S obj @ []) (accumulator @ [?n])"
        have first: "traverse_commit S c flags accumulator = ?first"
          using False Some wf by (simp add: traverse_commit_def)
        have "?n \<in> set (fst ?first)"
          using traverse_pending_mono[of "accumulator @ [?n]" S "links S obj @ []"] by auto
        then have "traverse_commit S c flags (fst ?first) = (fst ?first, Inr ())"
          by (simp add: traverse_commit_def)
        then show ?thesis by (simp add: first)
      qed
    qed
  qed
qed

text \<open>C8. The table \<^verbatim>\<open>commits\<close> built by the partition loop holds exactly the enumerated
  object names whose type is Commit; every key of it deserializes to type Commit, so the
  assertion in the first loop of \<^verbatim>\<open>fsck_reachable_objects_from_commits\<close> does not fire, and
  neither that function nor the builtin ever aborts.\<close>

theorem commits_table_holds_commits:
  "set (partition_commits objects []) = {k \<in> set objects. snd k = OSTREE_OBJECT_TYPE_COMMIT}
   \<and> (\<forall>k\<in>set (partition_commits objects []).
         snd (ostree_object_name_deserialize k) = OSTREE_OBJECT_TYPE_COMMIT)
   \<and> snd (traverse_commits r (partition_commits objects []) reachable) \<noteq> Aborted a
   \<and> fsck_reachable_objects_from_commits data (partition_commits objects []) \<noteq> Aborted a
   \<and> snd (ostree_builtin_fsck argv p0) \<noteq> Aborted a"
proof -
  have s: "set (partition_commits objects []) = {k \<in> set objects. snd k = OSTREE_OBJECT_TYPE_COMMIT}"
    for objects by (simp add: partition_commits_set)
  have c: "\<forall>k\<in>set (partition_commits objects []). snd k = OSTREE_OBJECT_TYPE_COMMIT" for objects
    by (simp add: s)
  have t: "snd (traverse_commits r (partition_commits objects []) reachable) \<noteq> Aborted a"
    for r objects reachable a
    using c by (rule traverse_commits_not_aborted)
  have f: "fsck_reachable_objects_from_commits data (partition_commits objects []) \<noteq> Aborted a"
    for data objects a
    using t[of "repo data" objects ostree_traverse_new_reachable a]
    by (auto simp: fsck_reachable_objects_from_commits_def Let_def verify_objects_not_aborted
          split: prod.splits outcome.splits)
  have p: "snd (fsck_pack_files data) \<noteq> Aborted a" for data a
    by (rule fsck_pack_files_not_aborted)
  have b: "snd (ostree_builtin_fsck argv p0) \<noteq> Aborted a"
    using f p
    apply (simp add: ostree_builtin_fsck_def Let_def split: sum.split outcome.split prod.split)
    by (metis snd_conv)
  show ?thesis using s c t f b by (simp add: ostree_object_name_deserialize_def)
qed

theorem commits_table_holds_commits_witness:
  "set (partition_commits example_objects []) = {(''c1'', OSTREE_OBJECT_TYPE_COMMIT)}
   \<and> snd (ostree_builtin_fsck [''fsck''] (example_process example_repo))
       \<noteq> Aborted ''objtype == OSTREE_OBJECT_TYPE_COMMIT''"
proof -
  have "{k \<in> set example_objects. snd k = OSTREE_OBJECT_TYPE_COMMIT}
          = {(''c1'', OSTREE_OBJECT_TYPE_COMMIT)}"
    by (auto simp: example_objects_def)
  then show ?thesis
    using commits_table_holds_commits[of example_objects example_repo "[]"
            "''objtype == OSTREE_OBJECT_TYPE_COMMIT''" "\<lparr>repo = example_repo, n_pack_files = 0\<rparr>"
            "[''fsck'']" "example_process example_repo"]
    by simp
qed

text \<open>C9. The claim: a status line is printed before each phase, and \<^verbatim>\<open>--quiet\<close>
  suppresses them all. The option table documents the flag as "Don't display informational
  messages", and the parser sets it; every \<^verbatim>\<open>g_print\<close> of the file is unconditional. Here
  the run over the small repository with \<^verbatim>\<open>--quiet\<close>: the flag is set and the three lines
  are printed all the same.\<close>

theorem quiet_flag_ignored:
  "ostree_builtin_fsck [''fsck'', ''--quiet''] (example_process example_repo) =
     (\<lparr>quiet = True, delete = False,
       stdout = [''Enumerating objects...'' @ [CHR 0x0A],
                 ''Verifying content integrity of 1 commit objects...'' @ [CHR 0x0A],
                 ''Verifying structure of pack files...'' @ [CHR 0x0A]],
       store = example_repo\<rparr>, Ret_TRUE)"
  by (simp add: example_defs run_defs)


end
